theory Spec2Isabelle
  imports Main "HOL-Library.Sublist"
begin

section \<open>Exceptions and their rendering\<close>

text \<open>
  The program distinguishes two kinds of raised values: the framework's
  \<open>HTTPException(status_code, detail)\<close> and every other Python exception, of which only
  \<open>str(e)\<close> is ever used. \<open>HTTPException\<close> is a subclass of \<open>Exception\<close>, so an
  \<open>except Exception\<close> clause catches both.
\<close>

datatype exn = PyException string | HTTPException nat string

fun str_nat :: "nat \<Rightarrow> string" where
  "str_nat n = (if n < 10 then [''0123456789'' ! n]
                else str_nat (n div 10) @ [''0123456789'' ! (n mod 10)])"

declare str_nat.simps [simp del]

text \<open>\<open>str(e)\<close>; the framework renders an \<open>HTTPException\<close> as \<open>"<status_code>: <detail>"\<close>.\<close>

fun str_exn :: "exn \<Rightarrow> string" where
  "str_exn (PyException m) = m"
| "str_exn (HTTPException c d) = str_nat c @ '': '' @ d"

text \<open>The message of the \<open>TypeError\<close> raised by \<open>None["_id"]\<close>.\<close>

definition not_subscriptable :: string where
  "not_subscriptable = [CHR 0x27] @ ''NoneType'' @ [CHR 0x27] @ '' object is not subscriptable''"


section \<open>Data model (schemas.py, main.py)\<close>

text \<open>\<open>class WaitlistPayload(BaseModel)\<close> of main.py: the email is a plain \<open>str\<close>.\<close>

record WaitlistPayload =
  wl_email :: string
  wl_name :: "string option"
  wl_source :: "string option"

text \<open>\<open>class VideoJob(BaseModel)\<close> of schemas.py.\<close>

record VideoJob =
  email :: "string option"
  filename :: string
  size_bytes :: int
  status :: string
  progress :: int
  steps :: "string list"
  current_step :: "string option"
  render_url :: "string option"
  error :: "string option"

text \<open>
  The document kept in collection \<open>videojob\<close>: the dumped \<open>VideoJob\<close>, the \<open>job_id\<close> that
  \<open>upload_video\<close> adds, and the \<open>updated_at\<close> key that the runner's \<open>$set\<close> adds.
\<close>

record videojob_doc = VideoJob +
  job_id :: string
  updated_at :: "nat option"

definition default_steps :: "string list" where
  "default_steps = [''analyze_content'', ''detect_cuts'', ''auto_captions'',
                    ''select_music'', ''insert_b_roll'', ''color_and_export'']"

text \<open>
  Construction of a \<open>VideoJob\<close> with the keyword arguments \<open>upload_video\<close> passes. The
  validator of \<open>EmailStr\<close> belongs to a library and is a parameter: it answers the
  normalised address, or the message of the validation error. The other checked
  constraint is \<open>progress: ge=0, le=100\<close>; the remaining fields take their defaults.
\<close>

definition mk_VideoJob ::
  "(string \<Rightarrow> string + string) \<Rightarrow> string option \<Rightarrow> string \<Rightarrow> int \<Rightarrow> string \<Rightarrow> int \<Rightarrow> string option
     \<Rightarrow> exn + VideoJob" where
  "mk_VideoJob EmailStr em fname sz st prog cs =
     (case (case em of None \<Rightarrow> Inr None
            | Some a \<Rightarrow> (case EmailStr a of Inl msg \<Rightarrow> Inl (PyException msg)
                                          | Inr a' \<Rightarrow> Inr (Some a'))) of
        Inl e \<Rightarrow> Inl e
      | Inr em' \<Rightarrow>
          if prog < 0 \<or> 100 < prog then Inl (PyException ''progress out of range'')
          else Inr \<lparr>email = em', filename = fname, size_bytes = sz, status = st,
                    progress = prog, steps = default_steps, current_step = cs,
                    render_url = None, error = None\<rparr>)"

text \<open>\<open>job_dict = job.model_dump(); job_dict["job_id"] = job_id\<close>.\<close>

definition job_dict :: "VideoJob \<Rightarrow> string \<Rightarrow> videojob_doc" where
  "job_dict job jid =
     \<lparr>email = email job, filename = filename job, size_bytes = size_bytes job,
      status = status job, progress = progress job, steps = steps job,
      current_step = current_step job, render_url = render_url job, error = error job,
      job_id = jid, updated_at = None\<rparr>"


section \<open>The world: document store, file system, clock, faults\<close>

text \<open>
  A collection is the list of its documents in insertion order, each paired with its
  \<open>_id\<close>. The clock counts milliseconds. Every access to the store or to the file
  system consumes one entry of \<open>faults\<close>: \<open>Some msg\<close> makes the access raise an exception
  with that message and leave the data untouched, \<open>None\<close> (or an exhausted list) lets it
  succeed.
\<close>

record world =
  videojob_coll :: "(nat \<times> videojob_doc) list"
  waitlistuser_coll :: "(nat \<times> WaitlistPayload) list"
  next_oid :: nat
  files :: "(string \<times> string) list"
  clock :: nat
  faults :: "string option list"

definition pop_fault :: "world \<Rightarrow> string option \<times> world" where
  "pop_fault w = (case faults w of [] \<Rightarrow> (None, w) | f # fs \<Rightarrow> (f, w\<lparr>faults := fs\<rparr>))"

definition utcnow :: "world \<Rightarrow> nat" where
  "utcnow w = clock w"

definition sleep :: "nat \<Rightarrow> world \<Rightarrow> world" where
  "sleep ms w = w\<lparr>clock := clock w + ms\<rparr>"

subsection \<open>Store operations\<close>

text \<open>\<open>collection.find_one({"job_id": job_id})\<close>: the first matching document, or \<open>None\<close>.\<close>

definition find_one :: "string \<Rightarrow> world \<Rightarrow> (exn + (nat \<times> videojob_doc) option) \<times> world" where
  "find_one jid w =
     (case pop_fault w of
        (Some msg, w') \<Rightarrow> (Inl (PyException msg), w')
      | (None, w') \<Rightarrow> (Inr (find (\<lambda>(i, d). job_id d = jid) (videojob_coll w')), w'))"

text \<open>
  \<open>collection.update_one(filter, {"$set": ...})\<close>: the first document that matches the
  filter is updated; when none matches nothing happens and nothing is raised (no upsert).
\<close>

fun update_first :: "(nat \<times> 'd \<Rightarrow> bool) \<Rightarrow> ('d \<Rightarrow> 'd) \<Rightarrow> (nat \<times> 'd) list \<Rightarrow> (nat \<times> 'd) list" where
  "update_first flt upd [] = []"
| "update_first flt upd (x # xs) =
     (if flt x then (fst x, upd (snd x)) # xs else x # update_first flt upd xs)"

definition update_one ::
  "(nat \<times> videojob_doc \<Rightarrow> bool) \<Rightarrow> (videojob_doc \<Rightarrow> videojob_doc) \<Rightarrow> world \<Rightarrow> (exn + unit) \<times> world" where
  "update_one flt upd w =
     (case pop_fault w of
        (Some msg, w') \<Rightarrow> (Inl (PyException msg), w')
      | (None, w') \<Rightarrow> (Inr (), w'\<lparr>videojob_coll := update_first flt upd (videojob_coll w')\<rparr>))"

text \<open>
  Modelled from the spec: \<open>create_document\<close> of the module \<open>database\<close>, which is not among
  the sources. The Job Store "persists job records" and "supports create"; the call
  "returns an opaque identifier" and may fail with a storage error. The record is
  appended to its collection under a fresh \<open>_id\<close>, whose rendering is returned. One
  definition per collection, since the documents differ in type.
\<close>

definition create_document_videojob :: "videojob_doc \<Rightarrow> world \<Rightarrow> (exn + string) \<times> world" where
  "create_document_videojob d w =
     (case pop_fault w of
        (Some msg, w') \<Rightarrow> (Inl (PyException msg), w')
      | (None, w') \<Rightarrow>
          (Inr (str_nat (next_oid w')),
           w'\<lparr>videojob_coll := videojob_coll w' @ [(next_oid w', d)],
              next_oid := Suc (next_oid w')\<rparr>))"

definition create_document_waitlistuser :: "WaitlistPayload \<Rightarrow> world \<Rightarrow> (exn + string) \<times> world" where
  "create_document_waitlistuser d w =
     (case pop_fault w of
        (Some msg, w') \<Rightarrow> (Inl (PyException msg), w')
      | (None, w') \<Rightarrow>
          (Inr (str_nat (next_oid w')),
           w'\<lparr>waitlistuser_coll := waitlistuser_coll w' @ [(next_oid w', d)],
              next_oid := Suc (next_oid w')\<rparr>))"

subsection \<open>File system\<close>

definition UPLOAD_DIR :: string where
  "UPLOAD_DIR = ''uploads''"

text \<open>\<open>os.path.join\<close> of two components: an absolute second component replaces the first.\<close>

definition os_path_join :: "string \<Rightarrow> string \<Rightarrow> string" where
  "os_path_join a b = (case b of CHR ''/'' # _ \<Rightarrow> b | _ \<Rightarrow> a @ ''/'' @ b)"

text \<open>\<open>with open(path, "wb") as f: f.write(data)\<close>.\<close>

definition write_file :: "string \<Rightarrow> string \<Rightarrow> world \<Rightarrow> (exn + unit) \<times> world" where
  "write_file path data w =
     (case pop_fault w of
        (Some msg, w') \<Rightarrow> (Inl (PyException msg), w')
      | (None, w') \<Rightarrow> (Inr (), w'\<lparr>files := (path, data) # filter (\<lambda>(p, _). p \<noteq> path) (files w')\<rparr>))"

definition os_path_getsize :: "string \<Rightarrow> world \<Rightarrow> exn + int" where
  "os_path_getsize path w =
     (case map_of (files w) path of
        None \<Rightarrow> Inl (PyException ''No such file or directory'')
      | Some data \<Rightarrow> Inr (int (length data)))"


section \<open>Endpoints and the pipeline runner (main.py)\<close>

text \<open>\<open>except Exception as e: raise HTTPException(status_code=500, detail=str(e))\<close>.\<close>

definition except_500 :: "(exn + 'a) \<times> world \<Rightarrow> (exn + 'a) \<times> world" where
  "except_500 r = (case r of (Inl e, w) \<Rightarrow> (Inl (HTTPException 500 (str_exn e)), w)
                          | (Inr v, w) \<Rightarrow> (Inr v, w))"

definition read_root :: string where
  "read_root = ''synk.ai backend running''"

text \<open>\<open>POST /api/waitlist\<close>; the answer \<open>{"ok": True, "id": doc_id}\<close> is its \<open>doc_id\<close>.\<close>

definition waitlist_signup :: "WaitlistPayload \<Rightarrow> world \<Rightarrow> (exn + string) \<times> world" where
  "waitlist_signup payload w = except_500 (create_document_waitlistuser payload w)"

subsection \<open>fake_ai_processing\<close>

definition fake_ai_steps :: "(string \<times> int) list" where
  "fake_ai_steps = [(''analyze_content'', 15), (''detect_cuts'', 30), (''auto_captions'', 45),
                    (''select_music'', 60), (''insert_b_roll'', 80), (''color_and_export'', 100)]"

definition set_processing :: "string \<Rightarrow> int \<Rightarrow> nat \<Rightarrow> videojob_doc \<Rightarrow> videojob_doc" where
  "set_processing step prog now d =
     d\<lparr>status := ''processing'', current_step := Some step, progress := prog,
       updated_at := Some now\<rparr>"

definition set_completed :: "string \<Rightarrow> nat \<Rightarrow> videojob_doc \<Rightarrow> videojob_doc" where
  "set_completed url now d = d\<lparr>status := ''completed'', render_url := Some url, updated_at := Some now\<rparr>"

definition set_failed :: "string \<Rightarrow> videojob_doc \<Rightarrow> videojob_doc" where
  "set_failed msg d = d\<lparr>status := ''failed'', error := Some msg\<rparr>"

text \<open>
  The body of the \<open>for\<close> loop up to the sleep: the document is looked up by \<open>job_id\<close>, the
  result is subscripted with \<open>"_id"\<close> (a \<open>TypeError\<close> when the lookup gave \<open>None\<close>), and the
  update is addressed to that \<open>_id\<close>.
\<close>

definition step_update :: "string \<Rightarrow> string \<times> int \<Rightarrow> world \<Rightarrow> (exn + unit) \<times> world" where
  "step_update jid sp w =
     (case find_one jid w of
        (Inl e, w1) \<Rightarrow> (Inl e, w1)
      | (Inr None, w1) \<Rightarrow> (Inl (PyException not_subscriptable), w1)
      | (Inr (Some (i, d)), w1) \<Rightarrow>
          update_one (\<lambda>(i', d'). i' = i) (set_processing (fst sp) (snd sp) (utcnow w1)) w1)"

definition render_url_of :: "string \<Rightarrow> string" where
  "render_url_of jid = ''/api/demo/render/'' @ jid @ ''.mp4''"

definition complete_update :: "string \<Rightarrow> world \<Rightarrow> (exn + unit) \<times> world" where
  "complete_update jid w =
     update_one (\<lambda>(i, d). job_id d = jid) (set_completed (render_url_of jid) (utcnow w)) w"

definition failed_update :: "string \<Rightarrow> exn \<Rightarrow> world \<Rightarrow> (exn + unit) \<times> world" where
  "failed_update jid e w = update_one (\<lambda>(i, d). job_id d = jid) (set_failed (str_exn e)) w"

text \<open>The \<open>for\<close> loop: an exception leaves it at once.\<close>

fun run_steps :: "string \<Rightarrow> (string \<times> int) list \<Rightarrow> world \<Rightarrow> (exn + unit) \<times> world" where
  "run_steps jid [] w = (Inr (), w)"
| "run_steps jid (sp # rest) w =
     (case step_update jid sp w of
        (Inl e, w') \<Rightarrow> (Inl e, w')
      | (Inr _, w') \<Rightarrow> run_steps jid rest (sleep 600 w'))"

text \<open>
  The whole function: the \<open>try\<close> block is the loop followed by the completion update; the
  \<open>except\<close> clause issues the failure update, and an exception raised there escapes.
\<close>

definition fake_ai_processing :: "string \<Rightarrow> string \<Rightarrow> world \<Rightarrow> (exn + unit) \<times> world" where
  "fake_ai_processing jid input_path w =
     (case (case run_steps jid fake_ai_steps w of
              (Inl e, w1) \<Rightarrow> (Inl e, w1)
            | (Inr _, w1) \<Rightarrow> complete_update jid w1) of
        (Inr _, w2) \<Rightarrow> (Inr (), w2)
      | (Inl e, w2) \<Rightarrow> failed_update jid e w2)"

subsection \<open>upload_video and get_job\<close>

text \<open>
  \<open>POST /api/upload\<close>. The identifier drawn by \<open>uuid4()\<close> is an argument. A successful call
  answers \<open>{"ok": True, "job_id": job_id}\<close> and has scheduled
  \<open>fake_ai_processing(job_id, in_path)\<close>: the result carries both arguments of that task.
\<close>

definition upload_video_try ::
  "(string \<Rightarrow> string + string) \<Rightarrow> string \<Rightarrow> string option \<Rightarrow> string \<Rightarrow> string option \<Rightarrow> world
     \<Rightarrow> (exn + string \<times> string) \<times> world" where
  "upload_video_try EmailStr uuid4 file_filename file_data em w =
     (let jid = uuid4;
          fname = jid @ ''_'' @ (case file_filename of None \<Rightarrow> ''None'' | Some n \<Rightarrow> n);
          in_path = os_path_join UPLOAD_DIR fname
      in case write_file in_path file_data w of
           (Inl e, w1) \<Rightarrow> (Inl e, w1)
         | (Inr _, w1) \<Rightarrow>
             (case os_path_getsize in_path w1 of
                Inl e \<Rightarrow> (Inl e, w1)
              | Inr sz \<Rightarrow>
                  (case mk_VideoJob EmailStr em fname sz ''queued'' 0 (Some ''analyze_content'') of
                     Inl e \<Rightarrow> (Inl e, w1)
                   | Inr job \<Rightarrow>
                       (case create_document_videojob (job_dict job jid) w1 of
                          (Inl e, w2) \<Rightarrow> (Inl e, w2)
                        | (Inr _, w2) \<Rightarrow> (Inr (jid, in_path), w2)))))"

definition upload_video ::
  "(string \<Rightarrow> string + string) \<Rightarrow> string \<Rightarrow> string option \<Rightarrow> string \<Rightarrow> string option \<Rightarrow> world
     \<Rightarrow> (exn + string \<times> string) \<times> world" where
  "upload_video EmailStr uuid4 file_filename file_data em w =
     except_500 (upload_video_try EmailStr uuid4 file_filename file_data em w)"

text \<open>
  \<open>GET /api/jobs/{job_id}\<close>. The \<open>try\<close> block raises \<open>HTTPException(404)\<close> for a missing
  job; the block is enclosed in the same \<open>except Exception\<close> clause as the other
  endpoints. The answer is the document with its \<open>_id\<close> rendered as a string.
\<close>

definition get_job_try :: "string \<Rightarrow> world \<Rightarrow> (exn + string \<times> videojob_doc) \<times> world" where
  "get_job_try jid w =
     (case find_one jid w of
        (Inl e, w1) \<Rightarrow> (Inl e, w1)
      | (Inr None, w1) \<Rightarrow> (Inl (HTTPException 404 ''Job not found''), w1)
      | (Inr (Some (i, d)), w1) \<Rightarrow> (Inr (str_nat i, d), w1))"

definition get_job :: "string \<Rightarrow> world \<Rightarrow> (exn + string \<times> videojob_doc) \<times> world" where
  "get_job jid w = except_500 (get_job_try jid w)"

definition get_demo_render :: "string \<Rightarrow> string" where
  "get_demo_render name = ''https://cdn.coverr.co/videos/coverr-northern-lights-6960/1080p.mp4''"

section \<open>The running system\<close>

text \<open>
  Requests arrive in any order, and every successful upload leaves one background task
  that runs \<open>fake_ai_processing\<close> concurrently with everything else. A task is observed
  between its accesses to the store, so its control point is part of the state: the
  steps of the loop still to run (none left: the completion update is next), the
  \<open>except\<close> clause with the caught exception, or the end of the function, reached by
  returning or by an exception escaping the handler.
\<close>

datatype pc = Running "(string \<times> int) list" | Handler exn | Returned | Escaped exn

record task =
  t_job_id :: string
  t_input_path :: string
  t_pc :: pc

record system =
  world :: world
  tasks :: "task list"

text \<open>One access of a task to the store, with the sleep that follows a step.\<close>

fun task_step :: "string \<Rightarrow> pc \<Rightarrow> world \<Rightarrow> pc \<times> world" where
  "task_step jid (Running (sp # rest)) w =
     (case step_update jid sp w of
        (Inl e, w') \<Rightarrow> (Handler e, w')
      | (Inr _, w') \<Rightarrow> (Running rest, sleep 600 w'))"
| "task_step jid (Running []) w =
     (case complete_update jid w of
        (Inl e, w') \<Rightarrow> (Handler e, w')
      | (Inr _, w') \<Rightarrow> (Returned, w'))"
| "task_step jid (Handler e) w =
     (case failed_update jid e w of
        (Inl e', w') \<Rightarrow> (Escaped e', w')
      | (Inr _, w') \<Rightarrow> (Returned, w'))"
| "task_step jid Returned w = (Returned, w)"
| "task_step jid (Escaped e) w = (Escaped e, w)"

text \<open>A task left alone for \<open>n\<close> accesses.\<close>

fun run_task :: "nat \<Rightarrow> string \<Rightarrow> pc \<Rightarrow> world \<Rightarrow> pc \<times> world" where
  "run_task 0 jid p w = (p, w)"
| "run_task (Suc n) jid p w = (case task_step jid p w of (p', w') \<Rightarrow> run_task n jid p' w')"

text \<open>
  What can happen: a request to one of the endpoints, or the task at some position of
  the task list performing its next access.
\<close>

datatype event =
    Upload string "string option" string "string option"
  | Tick nat
  | GetJob string
  | Waitlist WaitlistPayload
  | GetDemoRender string
  | ReadRoot

fun fire :: "(string \<Rightarrow> string + string) \<Rightarrow> event \<Rightarrow> system \<Rightarrow> system" where
  "fire V (Upload uuid4 file_filename file_data em) s =
     (case upload_video V uuid4 file_filename file_data em (world s) of
        (Inl e, w') \<Rightarrow> s\<lparr>world := w'\<rparr>
      | (Inr (jid, in_path), w') \<Rightarrow>
          s\<lparr>world := w',
            tasks := tasks s @ [\<lparr>t_job_id = jid, t_input_path = in_path,
                                 t_pc = Running fake_ai_steps\<rparr>]\<rparr>)"
| "fire V (Tick n) s =
     (if n < length (tasks s)
      then (case task_step (t_job_id (tasks s ! n)) (t_pc (tasks s ! n)) (world s) of
              (pc', w') \<Rightarrow> s\<lparr>world := w', tasks := (tasks s)[n := (tasks s ! n)\<lparr>t_pc := pc'\<rparr>]\<rparr>)
      else s)"
| "fire V (GetJob jid) s = s\<lparr>world := snd (get_job jid (world s))\<rparr>"
| "fire V (Waitlist payload) s = s\<lparr>world := snd (waitlist_signup payload (world s))\<rparr>"
| "fire V (GetDemoRender name) s = s"
| "fire V ReadRoot s = s"

fun exec :: "(string \<Rightarrow> string + string) \<Rightarrow> event list \<Rightarrow> system \<Rightarrow> system" where
  "exec V [] s = s"
| "exec V (e # es) s = exec V es (fire V e s)"

text \<open>
  \<open>uuid4()\<close> is taken to draw an identifier that no job and no task carries yet. A
  sequence of events is admissible when each of its uploads does so in the state it
  meets.
\<close>

fun fresh :: "event \<Rightarrow> system \<Rightarrow> bool" where
  "fresh (Upload uuid4 _ _ _) s =
     (uuid4 \<notin> set (map t_job_id (tasks s)) \<and>
      uuid4 \<notin> set (map (\<lambda>(i, d). job_id d) (videojob_coll (world s))))"
| "fresh _ s = True"

fun admissible :: "(string \<Rightarrow> string + string) \<Rightarrow> event list \<Rightarrow> system \<Rightarrow> bool" where
  "admissible V [] s = True"
| "admissible V (e # es) s = (fresh e s \<and> admissible V es (fire V e s))"

text \<open>The system at start: empty store, no task; the clock and the faults to come are free.\<close>

definition init_world :: "nat \<Rightarrow> string option list \<Rightarrow> world" where
  "init_world t0 fs = \<lparr>videojob_coll = [], waitlistuser_coll = [], next_oid = 0, files = [],
                       clock = t0, faults = fs\<rparr>"

definition init_system :: "nat \<Rightarrow> string option list \<Rightarrow> system" where
  "init_system t0 fs = \<lparr>world = init_world t0 fs, tasks = []\<rparr>"

section \<open>Auxiliary notions for the statements\<close>

text \<open>A world whose accesses all succeed from now on.\<close>

definition fault_free :: "world \<Rightarrow> bool" where
  "fault_free w = list_all (\<lambda>f. f = None) (faults w)"

text \<open>The outcome awaiting the next access, and the world once that access is over.\<close>

definition next_fault :: "world \<Rightarrow> string option" where
  "next_fault w = (case faults w of [] \<Rightarrow> None | f # _ \<Rightarrow> f)"

definition drop_fault :: "world \<Rightarrow> world" where
  "drop_fault w = w\<lparr>faults := tl (faults w)\<rparr>"

text \<open>The persistent part of a world: both collections, the \<open>_id\<close> counter and the files.\<close>

definition store ::
  "world \<Rightarrow> (nat \<times> videojob_doc) list \<times> (nat \<times> WaitlistPayload) list \<times> nat \<times> (string \<times> string) list" where
  "store w = (videojob_coll w, waitlistuser_coll w, next_oid w, files w)"

text \<open>The job identifiers present in the store.\<close>

definition job_ids :: "world \<Rightarrow> string list" where
  "job_ids w = map (\<lambda>(i, d). job_id d) (videojob_coll w)"

text \<open>A record of a job that has not reached a terminal status, and one that has.\<close>

definition nonterminal_ok :: "videojob_doc \<Rightarrow> bool" where
  "nonterminal_ok d =
     (render_url d = None \<and> error d = None \<and>
      (status d = ''queued'' \<and> progress d = 0 \<and> current_step d = Some ''analyze_content'' \<or>
       status d = ''processing'' \<and>
         (\<exists>sp \<in> set fake_ai_steps. current_step d = Some (fst sp) \<and> progress d = snd sp)))"

definition terminal_ok :: "videojob_doc \<Rightarrow> bool" where
  "terminal_ok d =
     ((progress d = 100) = (current_step d = Some ''color_and_export'') \<and>
      (status d = ''completed'' \<and> progress d = 100 \<and> render_url d \<noteq> None \<and> error d = None \<or>
       status d = ''failed'' \<and> error d \<noteq> None \<and> render_url d = None))"

definition terminal :: "videojob_doc \<Rightarrow> bool" where
  "terminal d = (status d = ''completed'' \<or> status d = ''failed'')"

text \<open>What the control point of a job's task says about the job's record.\<close>

fun doc_ok :: "pc \<Rightarrow> videojob_doc \<Rightarrow> bool" where
  "doc_ok (Running rest) d =
     (suffix rest fake_ai_steps \<and> nonterminal_ok d \<and>
      (rest = [] \<longrightarrow> status d = ''processing'' \<and> progress d = 100))"
| "doc_ok (Handler e) d = nonterminal_ok d"
| "doc_ok Returned d = terminal_ok d"
| "doc_ok (Escaped e) d = nonterminal_ok d"

text \<open>
  The invariant of the running system: identifiers are unique, every \<open>_id\<close> was drawn
  from the counter, every record has its task, and each record agrees with the control
  point of its task.
\<close>

definition sys_inv :: "system \<Rightarrow> bool" where
  "sys_inv s =
     (distinct (map fst (videojob_coll (world s))) \<and>
      (\<forall>x \<in> set (videojob_coll (world s)). fst x < next_oid (world s)) \<and>
      distinct (job_ids (world s)) \<and>
      distinct (map t_job_id (tasks s)) \<and>
      set (job_ids (world s)) \<subseteq> set (map t_job_id (tasks s)) \<and>
      (\<forall>t \<in> set (tasks s). \<forall>x \<in> set (videojob_coll (world s)).
         t_job_id t = job_id (snd x) \<longrightarrow> doc_ok (t_pc t) (snd x)))"

subsection \<open>Concrete inputs\<close>

text \<open>A validator that accepts every address unchanged, and one that insists on an \<open>@\<close>.\<close>

definition accept_all :: "string \<Rightarrow> string + string" where
  "accept_all a = Inr a"

definition needs_at :: "string \<Rightarrow> string + string" where
  "needs_at a = (if CHR ''@'' \<in> set a then Inr a else Inl ''value is not a valid email address'')"

text \<open>
  The world after one upload at time \<open>t0\<close> into the empty system, with the faults \<open>fs\<close>
  still to come.
\<close>

definition one_job_world :: "nat \<Rightarrow> string option list \<Rightarrow> world" where
  "one_job_world t0 fs =
     world (fire accept_all (Upload ''j1'' (Some ''clip.mp4'') ''data'' (Some ''a@b.com''))
              (init_system t0 (None # None # fs)))"

text \<open>One upload followed by \<open>n\<close> steps of its task.\<close>

definition upload_and_ticks :: "nat \<Rightarrow> event list" where
  "upload_and_ticks n =
     Upload ''j1'' (Some ''clip.mp4'') ''data'' (Some ''a@b.com'') # replicate n (Tick 0)"


section \<open>Basic facts about the world and the store\<close>

lemma pop_fault_conv: "pop_fault w = (next_fault w, drop_fault w)"
  by (cases "faults w") (simp_all add: pop_fault_def next_fault_def drop_fault_def)

lemma drop_fault_fields [simp]:
  "videojob_coll (drop_fault w) = videojob_coll w"
  "waitlistuser_coll (drop_fault w) = waitlistuser_coll w"
  "next_oid (drop_fault w) = next_oid w"
  "files (drop_fault w) = files w"
  "clock (drop_fault w) = clock w"
  by (simp_all add: drop_fault_def)

lemma fault_free_next [simp]: "fault_free w \<Longrightarrow> next_fault w = None"
  by (cases "faults w") (simp_all add: fault_free_def next_fault_def)

lemma fault_free_drop [simp]: "fault_free w \<Longrightarrow> fault_free (drop_fault w)"
  by (cases "faults w") (simp_all add: fault_free_def drop_fault_def)

lemma fault_free_sleep [simp]: "fault_free (sleep ms w) = fault_free w"
  by (simp add: fault_free_def sleep_def)

lemma sleep_fields [simp]:
  "videojob_coll (sleep ms w) = videojob_coll w"
  "waitlistuser_coll (sleep ms w) = waitlistuser_coll w"
  "next_oid (sleep ms w) = next_oid w"
  "files (sleep ms w) = files w"
  "clock (sleep ms w) = clock w + ms"
  by (simp_all add: sleep_def)

lemma find_one_conv:
  "find_one jid w =
     (case next_fault w of
        Some msg \<Rightarrow> (Inl (PyException msg), drop_fault w)
      | None \<Rightarrow> (Inr (find (\<lambda>(i, d). job_id d = jid) (videojob_coll w)), drop_fault w))"
  by (simp add: find_one_def pop_fault_conv split: option.splits)

lemma update_one_conv:
  "update_one flt upd w =
     (case next_fault w of
        Some msg \<Rightarrow> (Inl (PyException msg), drop_fault w)
      | None \<Rightarrow> (Inr (), (drop_fault w)\<lparr>videojob_coll := update_first flt upd (videojob_coll w)\<rparr>))"
  by (simp add: update_one_def pop_fault_conv split: option.splits)

lemma update_first_no_match:
  "\<forall>x \<in> set xs. \<not> flt x \<Longrightarrow> update_first flt upd xs = xs"
  by (induction xs) simp_all

lemma find_None_job_ids:
  "jid \<notin> set (job_ids w) \<Longrightarrow> find (\<lambda>(i, d). job_id d = jid) (videojob_coll w) = None"
  by (auto simp: job_ids_def find_None_iff)

lemma no_match_job_ids:
  "jid \<notin> set (job_ids w) \<Longrightarrow> \<forall>x \<in> set (videojob_coll w). \<not> (\<lambda>(i, d). job_id d = jid) x"
  by (auto simp: job_ids_def)

lemma step_update_absent:
  assumes "jid \<notin> set (job_ids w)"
  shows "store (snd (step_update jid sp w)) = store w"
    and "\<exists>e. fst (step_update jid sp w) = Inl e"
    and "next_fault w = None \<Longrightarrow> fst (step_update jid sp w) = Inl (PyException not_subscriptable)"
  using find_None_job_ids[OF assms]
  by (auto simp: step_update_def find_one_conv store_def split: option.splits)

lemma failed_update_absent:
  assumes "jid \<notin> set (job_ids w)"
  shows "store (snd (failed_update jid e w)) = store w"
    and "next_fault w = None \<Longrightarrow> fst (failed_update jid e w) = Inr ()"
  using update_first_no_match[OF no_match_job_ids[OF assms]]
  by (auto simp: failed_update_def update_one_conv store_def split: option.splits)

lemma job_ids_cong: "store w' = store w \<Longrightarrow> job_ids w' = job_ids w"
  by (simp add: store_def job_ids_def)

lemma update_first_at:
  "k < length xs \<Longrightarrow> flt (xs ! k) \<Longrightarrow> \<forall>m<k. \<not> flt (xs ! m) \<Longrightarrow>
   update_first flt upd xs = xs[k := (fst (xs ! k), upd (snd (xs ! k)))]"
proof (induction xs arbitrary: k)
  case Nil
  then show ?case by simp
next
  case (Cons x xs)
  show ?case
  proof (cases k)
    case 0
    with Cons.prems show ?thesis by simp
  next
    case (Suc k')
    from Cons.prems(3) Suc have nx: "\<not> flt x" by auto
    from Cons.prems Suc have "\<forall>m<k'. \<not> flt (xs ! m)" by auto
    with Cons.IH[of k'] Cons.prems Suc nx show ?thesis by simp
  qed
qed

lemma distinct_fst_first:
  assumes "distinct (map fst xs)" "k < length xs"
  shows "\<forall>m<k. \<not> (\<lambda>(i', d'). i' = fst (xs ! k)) (xs ! m)"
proof (intro allI impI)
  fix m assume "m < k"
  with assms have "(map fst xs ! m = map fst xs ! k) = (m = k)"
    by (intro nth_eq_iff_index_eq) simp_all
  with assms \<open>m < k\<close> show "\<not> (\<lambda>(i', d'). i' = fst (xs ! k)) (xs ! m)"
    by (simp add: case_prod_beta)
qed

lemma find_update_at:
  assumes "k < length xs" "\<forall>m<k. \<not> P (xs ! m)" "P y"
  shows "find P (xs[k := y]) = Some y"
  unfolding find_Some_iff
  using assms by (intro exI[of _ k]) simp

lemma set_processing_collapse [simp]:
  "set_processing a b c (set_processing a' b' c' d) = set_processing a b c d"
  by (simp add: set_processing_def)

lemma set_processing_job_id [simp]: "job_id (set_processing a b c d) = job_id d"
  by (simp add: set_processing_def)

lemma step_update_ok:
  assumes f: "find (\<lambda>(i, d). job_id d = jid) (videojob_coll w) = Some (i, d)"
    and dist: "distinct (map fst (videojob_coll w))"
    and ff: "fault_free w"
  shows "\<exists>w'. step_update jid sp w = (Inr (), w') \<and>
           find (\<lambda>(i, d). job_id d = jid) (videojob_coll w') =
             Some (i, set_processing (fst sp) (snd sp) (clock w) d) \<and>
           map fst (videojob_coll w') = map fst (videojob_coll w) \<and>
           fault_free w' \<and> clock w' = clock w"
proof -
  let ?xs = "videojob_coll w"
  let ?P = "\<lambda>(i, d). job_id d = jid"
  from f obtain k where k: "k < length ?xs" "?xs ! k = (i, d)" "?P (i, d)" "\<forall>m<k. \<not> ?P (?xs ! m)"
    unfolding find_Some_iff by auto
  let ?upd = "set_processing (fst sp) (snd sp) (clock w)"
  have first: "\<forall>m<k. \<not> (\<lambda>(i', d'). i' = i) (?xs ! m)"
    using distinct_fst_first[OF dist k(1)] k(2) by simp
  have upd: "update_first (\<lambda>(i', d'). i' = i) ?upd ?xs = ?xs[k := (i, ?upd d)]"
    using update_first_at[OF k(1) _ first, of ?upd] k(2) by simp
  have su: "step_update jid sp w =
        (Inr (), (drop_fault (drop_fault w))\<lparr>videojob_coll := ?xs[k := (i, ?upd d)]\<rparr>)"
    using f ff upd by (simp add: step_update_def find_one_conv update_one_conv utcnow_def)
  have fnd: "find ?P (?xs[k := (i, ?upd d)]) = Some (i, ?upd d)"
    using find_update_at[OF k(1) k(4), of "(i, ?upd d)"] k(3) by simp
  have ff': "fault_free ((drop_fault (drop_fault w))\<lparr>videojob_coll := ?xs[k := (i, ?upd d)]\<rparr>)"
    using fault_free_drop[OF fault_free_drop[OF ff]] by (simp add: fault_free_def)
  have ids: "map fst (?xs[k := (i, ?upd d)]) = map fst ?xs"
    using k(1,2) by (simp add: map_update) (metis fst_conv list_update_id map_update)
  show ?thesis using su fnd ff' ids by simp
qed

lemma run_steps_ok:
  assumes "find (\<lambda>(i, d). job_id d = jid) (videojob_coll w) = Some (i, d)"
    and "distinct (map fst (videojob_coll w))"
    and "fault_free w"
    and "sps \<noteq> []"
  shows "\<exists>w'. run_steps jid sps w = (Inr (), w') \<and>
           find (\<lambda>(i, d). job_id d = jid) (videojob_coll w') =
             Some (i, set_processing (fst (last sps)) (snd (last sps))
                        (clock w + 600 * (length sps - 1)) d) \<and>
           map fst (videojob_coll w') = map fst (videojob_coll w) \<and>
           fault_free w' \<and> clock w' = clock w + 600 * length sps"
  using assms
proof (induction sps arbitrary: w d)
  case Nil
  then show ?case by simp
next
  case (Cons sp rest)
  from step_update_ok[OF Cons.prems(1-3), of sp]
  obtain w1 where w1: "step_update jid sp w = (Inr (), w1)"
      "find (\<lambda>(i, d). job_id d = jid) (videojob_coll w1) =
         Some (i, set_processing (fst sp) (snd sp) (clock w) d)"
      "map fst (videojob_coll w1) = map fst (videojob_coll w)"
      "fault_free w1" "clock w1 = clock w"
    by blast
  show ?case
  proof (cases "rest = []")
    case True
    with w1 show ?thesis by simp
  next
    case False
    have d1: "distinct (map fst (videojob_coll (sleep 600 w1)))"
      using Cons.prems(2) w1(3) by simp
    from Cons.IH[of "sleep 600 w1" "set_processing (fst sp) (snd sp) (clock w) d", OF _ d1 _ False] w1
    obtain w' where w': "run_steps jid rest (sleep 600 w1) = (Inr (), w')"
      "find (\<lambda>(i, d). job_id d = jid) (videojob_coll w') =
         Some (i, set_processing (fst (last rest)) (snd (last rest))
                    (clock w + 600 + 600 * (length rest - 1)) d)"
      "map fst (videojob_coll w') = map fst (videojob_coll w)"
      "fault_free w'" "clock w' = clock w + 600 + 600 * length rest"
      by auto
    from False have "600 + 600 * (length rest - 1) = 600 * length rest"
      by (cases rest) simp_all
    with w1(1) w' False show ?thesis by (simp add: add.assoc)
  qed
qed

lemma complete_update_ok:
  assumes f: "find (\<lambda>(i, d). job_id d = jid) (videojob_coll w) = Some (i, d)"
    and ff: "fault_free w"
  shows "\<exists>w'. complete_update jid w = (Inr (), w') \<and>
           find (\<lambda>(i, d). job_id d = jid) (videojob_coll w') =
             Some (i, set_completed (render_url_of jid) (clock w) d)"
proof -
  let ?xs = "videojob_coll w"
  let ?P = "\<lambda>(i, d). job_id d = jid"
  from f obtain k where k: "k < length ?xs" "?xs ! k = (i, d)" "?P (i, d)" "\<forall>m<k. \<not> ?P (?xs ! m)"
    unfolding find_Some_iff by auto
  let ?upd = "set_completed (render_url_of jid) (clock w)"
  have upd: "update_first ?P ?upd ?xs = ?xs[k := (i, ?upd d)]"
    using update_first_at[OF k(1) _ k(4), of ?upd] k(2,3) by simp
  have "?P (i, ?upd d)" using k(3) by (simp add: set_completed_def)
  from find_update_at[OF k(1) k(4) this] upd ff
  show ?thesis by (simp add: complete_update_def update_one_conv utcnow_def)
qed


lemma next_fault_updates [simp]:
  "next_fault (w\<lparr>files := fl\<rparr>) = next_fault w"
  "next_fault (w\<lparr>videojob_coll := vc\<rparr>) = next_fault w"
  "next_fault (w\<lparr>waitlistuser_coll := wc\<rparr>) = next_fault w"
  "next_fault (w\<lparr>next_oid := n\<rparr>) = next_fault w"
  "next_fault (sleep ms w) = next_fault w"
  by (simp_all add: next_fault_def sleep_def)

lemma fault_free_updates [simp]:
  "fault_free (w\<lparr>files := fl\<rparr>) = fault_free w"
  "fault_free (w\<lparr>videojob_coll := vc\<rparr>) = fault_free w"
  "fault_free (w\<lparr>waitlistuser_coll := wc\<rparr>) = fault_free w"
  "fault_free (w\<lparr>next_oid := n\<rparr>) = fault_free w"
  by (simp_all add: fault_free_def)

lemma write_file_conv:
  "write_file path data w =
     (case next_fault w of
        Some msg \<Rightarrow> (Inl (PyException msg), drop_fault w)
      | None \<Rightarrow> (Inr (), (drop_fault w)\<lparr>files := (path, data) # filter (\<lambda>(p, _). p \<noteq> path) (files w)\<rparr>))"
  by (simp add: write_file_def pop_fault_conv split: option.splits)

lemma create_document_videojob_conv:
  "create_document_videojob d w =
     (case next_fault w of
        Some msg \<Rightarrow> (Inl (PyException msg), drop_fault w)
      | None \<Rightarrow> (Inr (str_nat (next_oid w)),
                  (drop_fault w)\<lparr>videojob_coll := videojob_coll w @ [(next_oid w, d)],
                                 next_oid := Suc (next_oid w)\<rparr>))"
  by (simp add: create_document_videojob_def pop_fault_conv split: option.splits)

lemma create_document_waitlistuser_conv:
  "create_document_waitlistuser d w =
     (case next_fault w of
        Some msg \<Rightarrow> (Inl (PyException msg), drop_fault w)
      | None \<Rightarrow> (Inr (str_nat (next_oid w)),
                  (drop_fault w)\<lparr>waitlistuser_coll := waitlistuser_coll w @ [(next_oid w, d)],
                                 next_oid := Suc (next_oid w)\<rparr>))"
  by (simp add: create_document_waitlistuser_def pop_fault_conv split: option.splits)

lemma os_path_getsize_written [simp]:
  "os_path_getsize path (w\<lparr>files := (path, data) # fl\<rparr>) = Inr (int (length data))"
  by (simp add: os_path_getsize_def)

text \<open>The world after the file of an upload has been written.\<close>

lemma upload_video_try_conv:
  "upload_video_try V uuid fname data em w =
     (let fn = uuid @ ''_'' @ (case fname of None \<Rightarrow> ''None'' | Some n \<Rightarrow> n);
          p = os_path_join UPLOAD_DIR fn;
          w1 = (drop_fault w)\<lparr>files := (p, data) # filter (\<lambda>(q, _). q \<noteq> p) (files w)\<rparr>
      in case next_fault w of
           Some msg \<Rightarrow> (Inl (PyException msg), drop_fault w)
         | None \<Rightarrow>
             (case mk_VideoJob V em fn (int (length data)) ''queued'' 0 (Some ''analyze_content'') of
                Inl e \<Rightarrow> (Inl e, w1)
              | Inr job \<Rightarrow>
                  (case next_fault (drop_fault w) of
                     Some msg \<Rightarrow> (Inl (PyException msg), drop_fault w1)
                   | None \<Rightarrow>
                       (Inr (uuid, p),
                        (drop_fault w1)\<lparr>videojob_coll := videojob_coll w @ [(next_oid w, job_dict job uuid)],
                                        next_oid := Suc (next_oid w)\<rparr>))))"
  by (simp add: upload_video_try_def Let_def write_file_conv create_document_videojob_conv
      split: option.splits sum.splits)

lemma except_500_Inr: "except_500 r = (Inr v, w') \<longleftrightarrow> r = (Inr v, w')"
  by (cases r; cases "fst r") (auto simp: except_500_def)

lemma upload_video_Inr:
  assumes "upload_video V uuid fname data em w = (Inr (jid, in_path), w')"
  shows "jid = uuid \<and>
         (\<exists>job. mk_VideoJob V em (uuid @ ''_'' @ (case fname of None \<Rightarrow> ''None'' | Some n \<Rightarrow> n))
                      (int (length data)) ''queued'' 0 (Some ''analyze_content'') = Inr job \<and>
            videojob_coll w' = videojob_coll w @ [(next_oid w, job_dict job uuid)] \<and>
            waitlistuser_coll w' = waitlistuser_coll w \<and>
            next_oid w' = Suc (next_oid w))"
proof -
  from assms have "upload_video_try V uuid fname data em w = (Inr (jid, in_path), w')"
    by (simp add: upload_video_def except_500_Inr)
  then show ?thesis
    unfolding upload_video_try_conv Let_def
    by (auto split: option.splits sum.splits)
qed

lemma upload_video_Inl:
  assumes "upload_video V uuid fname data em w = (Inl e, w')"
  shows "videojob_coll w' = videojob_coll w \<and> waitlistuser_coll w' = waitlistuser_coll w \<and>
         next_oid w' = next_oid w"
proof -
  obtain r w1 where r: "upload_video_try V uuid fname data em w = (r, w1)"
    by (cases "upload_video_try V uuid fname data em w")
  with assms have w1: "w1 = w'" and "\<exists>e'. r = Inl e'"
    by (auto simp: upload_video_def except_500_def split: sum.splits)
  then obtain e' where "upload_video_try V uuid fname data em w = (Inl e', w')" using r by auto
  then show ?thesis
    unfolding upload_video_try_conv Let_def
    by (auto split: option.splits sum.splits)
qed

lemma mk_VideoJob_Inr:
  "mk_VideoJob V em fn sz st prog cs = Inr job \<Longrightarrow>
   status job = st \<and> progress job = prog \<and> current_step job = cs \<and> steps job = default_steps \<and>
   render_url job = None \<and> error job = None \<and> filename job = fn \<and> size_bytes job = sz"
  by (auto simp: mk_VideoJob_def split: option.splits sum.splits if_splits)

lemma find_append_miss:
  "find P xs = None \<Longrightarrow> find P (xs @ ys) = find P ys"
  by (induction xs) (simp_all split: if_splits)

lemma upload_video_succeeds:
  assumes ff: "fault_free w" and ok: "em = None \<or> (\<exists>a a'. em = Some a \<and> V a = Inr a')"
  shows "\<exists>w'. upload_video V uuid fname data em w =
           (Inr (uuid, os_path_join UPLOAD_DIR (uuid @ ''_'' @ (case fname of None \<Rightarrow> ''None'' | Some n \<Rightarrow> n))), w')
           \<and> fault_free w'"
proof -
  from ok obtain job where
    "mk_VideoJob V em (uuid @ ''_'' @ (case fname of None \<Rightarrow> ''None'' | Some n \<Rightarrow> n))
       (int (length data)) ''queued'' 0 (Some ''analyze_content'') = Inr job"
    by (auto simp: mk_VideoJob_def)
  with ff show ?thesis
    by (simp add: upload_video_def upload_video_try_conv Let_def except_500_def)
qed


section \<open>Properties of single calls\<close>

text \<open>
  C2. A lookup of a job identifier without a record is claimed to fail with HTTP 404 and
  detail "Job not found". Evaluated on the empty store, \<open>get_job\<close> answers HTTP 500: the
  404 raised inside the \<open>try\<close> block is caught by the enclosing \<open>except Exception\<close> clause
  and wrapped.
\<close>

theorem get_job_missing_answers_500:
  "get_job ''no-such-job'' (init_world 0 []) =
     (Inl (HTTPException 500 ''404: Job not found''), init_world 0 [])"
  by code_simp

text \<open>
  C4. A waitlist entry with a malformed email is claimed to be rejected before anything
  is persisted. Evaluated on \<open>not-an-email\<close>, \<open>waitlist_signup\<close> succeeds and the entry is
  in the collection: the endpoint's payload types the email as a plain string and the
  schema with the validated address is never applied.
\<close>

theorem waitlist_signup_stores_malformed_email:
  "waitlist_signup \<lparr>wl_email = ''not-an-email'', wl_name = None, wl_source = Some ''marketing''\<rparr>
       (init_world 0 []) =
     (Inr ''0'',
      (init_world 0 [])\<lparr>waitlistuser_coll :=
          [(0, \<lparr>wl_email = ''not-an-email'', wl_name = None, wl_source = Some ''marketing''\<rparr>)],
        next_oid := 1\<rparr>)"
  by code_simp

text \<open>
  C3. On an error the runner is claimed to set the status to failed, record the error and
  set \<open>updated_at\<close> to the current time. Evaluated on a job whose second step meets a
  store failure at time 1600: status and error are written, \<open>updated_at\<close> keeps the
  time of the first step, 1000.
\<close>

theorem failure_update_keeps_stale_updated_at:
  "(case fake_ai_processing ''j1'' ''uploads/j1_clip.mp4''
           (one_job_world 1000 [None, None, Some ''boom'']) of
      (r, w') \<Rightarrow>
        r = Inr () \<and> utcnow w' = 1600 \<and>
        map (\<lambda>(i, d). (status d, error d, current_step d, progress d, updated_at d))
            (videojob_coll w') =
          [(''failed'', Some ''boom'', Some ''analyze_content'', 15, Some 1000)])"
  by code_simp

text \<open>
  C9. When the runner is started for a job identifier that has no record, the store is
  the same after the run as before it, whatever faults occur: no record is created and
  no error is written anywhere. When the two accesses it makes succeed, the first step
  fails on subscripting the empty lookup result, the exception is caught, and the
  function returns normally.
\<close>

theorem runner_without_record_leaves_store:
  assumes "jid \<notin> set (job_ids w)"
  shows "store (snd (fake_ai_processing jid input_path w)) = store w \<and>
         (list_all (\<lambda>f. f = None) (take 2 (faults w)) \<longrightarrow>
            fst (step_update jid (hd fake_ai_steps) w) = Inl (PyException not_subscriptable) \<and>
            fst (fake_ai_processing jid input_path w) = Inr ())"
proof -
  obtain r w1 where su: "step_update jid (''analyze_content'', 15) w = (r, w1)"
    by (cases "step_update jid (''analyze_content'', 15) w")
  from step_update_absent(1,2)[OF assms, of "(''analyze_content'', 15)"] su
  obtain e where r: "r = Inl e" and st: "store w1 = store w" by auto
  have abs1: "jid \<notin> set (job_ids w1)" using assms job_ids_cong[OF st] by simp
  have fap: "fake_ai_processing jid input_path w = failed_update jid e w1"
    by (simp add: fake_ai_processing_def fake_ai_steps_def su r)
  have A: "store (snd (fake_ai_processing jid input_path w)) = store w"
    using failed_update_absent(1)[OF abs1] st fap by simp
  have B: "fst (step_update jid (hd fake_ai_steps) w) = Inl (PyException not_subscriptable) \<and>
            fst (fake_ai_processing jid input_path w) = Inr ()"
    if nf: "list_all (\<lambda>f. f = None) (take 2 (faults w))"
  proof -
    have n1: "next_fault w = None" using nf by (cases "faults w") (simp_all add: next_fault_def)
    have w1: "w1 = drop_fault w"
      using su find_None_job_ids[OF assms] n1 by (simp add: step_update_def find_one_conv)
    have n2: "next_fault w1 = None"
      using nf unfolding w1 by (cases "faults w"; cases "tl (faults w)") (simp_all add: next_fault_def drop_fault_def)
    show ?thesis
      using step_update_absent(3)[OF assms n1] failed_update_absent(2)[OF abs1 n2] fap
      by (simp add: fake_ai_steps_def)
  qed
  from A B show ?thesis by blast
qed

theorem runner_without_record_witness:
  "''ghost'' \<notin> set (job_ids (one_job_world 0 [])) \<and>
   store (snd (fake_ai_processing ''ghost'' ''uploads/ghost_clip.mp4'' (one_job_world 0 []))) =
     store (one_job_world 0 []) \<and>
   list_all (\<lambda>f. f = None) (take 2 (faults (one_job_world 0 []))) \<and>
   fst (step_update ''ghost'' (hd fake_ai_steps) (one_job_world 0 [])) =
     Inl (PyException not_subscriptable) \<and>
   fst (fake_ai_processing ''ghost'' ''uploads/ghost_clip.mp4'' (one_job_world 0 [])) = Inr ()"
proof -
  have h: "''ghost'' \<notin> set (job_ids (one_job_world 0 []))" by code_simp
  have f: "list_all (\<lambda>f. f = None) (take 2 (faults (one_job_world 0 [])))" by code_simp
  from runner_without_record_leaves_store[OF h, of "''uploads/ghost_clip.mp4''"] h f
  show ?thesis by blast
qed



text \<open>
  C7. Whenever an upload creates a job (whatever the email, filename and file content),
  under an identifier no record carries yet, the record read back by \<open>get_job\<close> right
  after it, before the background task has made a step, has status "queued", progress 0,
  current step "analyze_content" and the byte length of the file as its size. (The read
  answers a server error instead when the store fails at that moment.)
\<close>

theorem upload_then_get_job:
  assumes up: "upload_video V uuid fname data em w = (Inr (jid, in_path), w')"
    and fresh: "uuid \<notin> set (job_ids w)"
    and nf: "next_fault w' = None"
  shows "jid = uuid \<and>
         (\<exists>i d. get_job jid w' = (Inr (str_nat i, d), drop_fault w') \<and>
                 status d = ''queued'' \<and> progress d = 0 \<and>
                 current_step d = Some ''analyze_content'' \<and>
                 size_bytes d = int (length data))"
proof -
  from upload_video_Inr[OF up] obtain job where
    j: "jid = uuid"
    and mk: "mk_VideoJob V em (uuid @ ''_'' @ (case fname of None \<Rightarrow> ''None'' | Some n \<Rightarrow> n))
                      (int (length data)) ''queued'' 0 (Some ''analyze_content'') = Inr job"
    and coll: "videojob_coll w' = videojob_coll w @ [(next_oid w, job_dict job uuid)]"
    by blast
  have "find (\<lambda>(i, d). job_id d = uuid) (videojob_coll w') = Some (next_oid w, job_dict job uuid)"
    unfolding coll using find_append_miss[OF find_None_job_ids[OF fresh]]
    by (simp add: job_dict_def)
  then have g: "get_job jid w' = (Inr (str_nat (next_oid w), job_dict job uuid), drop_fault w')"
    using nf j by (simp add: get_job_def get_job_try_def except_500_def find_one_conv)
  from mk_VideoJob_Inr[OF mk] have
    "status (job_dict job uuid) = ''queued'' \<and> progress (job_dict job uuid) = 0 \<and>
     current_step (job_dict job uuid) = Some ''analyze_content'' \<and>
     size_bytes (job_dict job uuid) = int (length data)"
    by (simp add: job_dict_def)
  with g j show ?thesis by blast
qed

theorem upload_then_get_job_witness:
  "upload_video needs_at ''j1'' (Some ''clip.mp4'') (replicate 1024 CHR ''x'') (Some ''a@b.com'') (init_world 0 []) =
     (Inr (''j1'', ''uploads/j1_clip.mp4''),
      snd (upload_video needs_at ''j1'' (Some ''clip.mp4'') (replicate 1024 CHR ''x'') (Some ''a@b.com'') (init_world 0 []))) \<and>
   ''j1'' \<notin> set (job_ids (init_world 0 [])) \<and>
   next_fault (snd (upload_video needs_at ''j1'' (Some ''clip.mp4'') (replicate 1024 CHR ''x'') (Some ''a@b.com'') (init_world 0 []))) = None \<and>
   int (length (replicate 1024 CHR ''x'')) = 1024 \<and>
   (\<exists>i d. get_job ''j1'' (snd (upload_video needs_at ''j1'' (Some ''clip.mp4'') (replicate 1024 CHR ''x'') (Some ''a@b.com'') (init_world 0 []))) =
             (Inr (str_nat i, d), drop_fault (snd (upload_video needs_at ''j1'' (Some ''clip.mp4'') (replicate 1024 CHR ''x'') (Some ''a@b.com'') (init_world 0 [])))) \<and>
           status d = ''queued'' \<and> progress d = 0 \<and>
           current_step d = Some ''analyze_content'' \<and>
           size_bytes d = int (length (replicate 1024 CHR ''x'')))"
proof -
  let ?r = "upload_video needs_at ''j1'' (Some ''clip.mp4'') (replicate 1024 CHR ''x'') (Some ''a@b.com'') (init_world 0 [])"
  have e1: "fst ?r = Inr (''j1'', ''uploads/j1_clip.mp4'')" by code_simp
  have e: "?r = (Inr (''j1'', ''uploads/j1_clip.mp4''), snd ?r)"
    by (rule prod_eqI) (simp_all only: fst_conv snd_conv e1)
  have f: "''j1'' \<notin> set (job_ids (init_world 0 []))" by code_simp
  have n: "next_fault (snd ?r) = None" by code_simp
  have l: "int (length (replicate 1024 CHR ''x'')) = 1024" by simp
  note T = upload_then_get_job[OF e f n, THEN conjunct2]
  show ?thesis by (intro conjI e f n l T)
qed


section \<open>Properties of the running system\<close>

subsection \<open>The steps field\<close>

lemma update_first_pres:
  "\<forall>x \<in> set xs. Q (snd x) \<Longrightarrow> (\<And>d. Q d \<Longrightarrow> Q (upd d)) \<Longrightarrow>
   \<forall>x \<in> set (update_first flt upd xs). Q (snd x)"
  by (induction xs) auto

lemma update_one_pres:
  assumes "\<forall>x \<in> set (videojob_coll w). Q (snd x)" and "\<And>d. Q d \<Longrightarrow> Q (upd d)"
  shows "\<forall>x \<in> set (videojob_coll (snd (update_one flt upd w))). Q (snd x)"
proof (cases "next_fault w")
  case None
  with update_first_pres[of "videojob_coll w" Q upd flt, OF assms] show ?thesis
    by (simp add: update_one_conv)
next
  case (Some m)
  with assms(1) show ?thesis by (simp add: update_one_conv)
qed

lemma step_update_pres:
  assumes "\<forall>x \<in> set (videojob_coll w). Q (snd x)"
    and "\<And>d a b c. Q d \<Longrightarrow> Q (set_processing a b c d)"
  shows "\<forall>x \<in> set (videojob_coll (snd (step_update jid sp w))). Q (snd x)"
proof (cases "fst (find_one jid w)")
  case (Inl e)
  with assms(1) show ?thesis
    by (auto simp: step_update_def find_one_conv split: option.splits prod.splits)
next
  case (Inr r)
  have w1: "snd (find_one jid w) = drop_fault w"
    by (simp add: find_one_conv split: option.splits)
  show ?thesis
  proof (cases r)
    case None
    with Inr w1 assms(1) show ?thesis
      by (cases "find_one jid w") (simp add: step_update_def)
  next
    case (Some x)
    obtain i d where x: "x = (i, d)" by (cases x)
    have "\<forall>x \<in> set (videojob_coll (drop_fault w)). Q (snd x)" using assms(1) by simp
    from update_one_pres[of "drop_fault w" Q, OF this assms(2)] Some Inr w1 x
    show ?thesis
      by (cases "find_one jid w") (simp add: step_update_def)
  qed
qed

lemma steps_set [simp]:
  "steps (set_processing a b c d) = steps d"
  "steps (set_completed u n d) = steps d"
  "steps (set_failed m d) = steps d"
  by (simp_all add: set_processing_def set_completed_def set_failed_def)

lemma complete_update_pres:
  assumes "\<forall>x \<in> set (videojob_coll w). Q (snd x)"
    and "\<And>d u n. Q d \<Longrightarrow> Q (set_completed u n d)"
  shows "\<forall>x \<in> set (videojob_coll (snd (complete_update jid w))). Q (snd x)"
  unfolding complete_update_def by (rule update_one_pres[OF assms(1)]) (rule assms(2))

lemma failed_update_pres:
  assumes "\<forall>x \<in> set (videojob_coll w). Q (snd x)"
    and "\<And>d m. Q d \<Longrightarrow> Q (set_failed m d)"
  shows "\<forall>x \<in> set (videojob_coll (snd (failed_update jid e w))). Q (snd x)"
  unfolding failed_update_def by (rule update_one_pres[OF assms(1)]) (rule assms(2))

lemma task_step_steps:
  assumes "\<forall>x \<in> set (videojob_coll w). steps (snd x) = default_steps"
  shows "\<forall>x \<in> set (videojob_coll (snd (task_step jid pc w))). steps (snd x) = default_steps"
proof (cases "(jid, pc, w)" rule: task_step.cases)
  case (1 j sp rest w0)
  obtain r w1 where eq: "step_update jid sp w = (r, w1)" by (cases "step_update jid sp w")
  from step_update_pres[of w "\<lambda>d. steps d = default_steps" jid sp, OF assms] eq
  have "\<forall>x \<in> set (videojob_coll w1). steps (snd x) = default_steps" by simp
  with 1 eq show ?thesis by (cases r) simp_all
next
  case (2 j w0)
  obtain r w1 where eq: "complete_update jid w = (r, w1)" by (cases "complete_update jid w")
  from complete_update_pres[of w "\<lambda>d. steps d = default_steps" jid, OF assms] eq
  have "\<forall>x \<in> set (videojob_coll w1). steps (snd x) = default_steps" by simp
  with 2 eq show ?thesis by (cases r) simp_all
next
  case (3 j e w0)
  obtain r w1 where eq: "failed_update jid e w = (r, w1)" by (cases "failed_update jid e w")
  from failed_update_pres[of w "\<lambda>d. steps d = default_steps" jid e, OF assms] eq
  have "\<forall>x \<in> set (videojob_coll w1). steps (snd x) = default_steps" by simp
  with 3 eq show ?thesis by (cases r) simp_all
next
  case (4 j w0)
  with assms show ?thesis by simp
next
  case (5 j e w0)
  with assms show ?thesis by simp
qed

lemma get_job_world: "snd (get_job jid w) = drop_fault w"
  by (simp add: get_job_def get_job_try_def except_500_def find_one_conv
      split: option.splits prod.splits sum.splits)

lemma waitlist_signup_world:
  "videojob_coll (snd (waitlist_signup p w)) = videojob_coll w \<and>
   next_oid w \<le> next_oid (snd (waitlist_signup p w))"
  by (simp add: waitlist_signup_def except_500_def create_document_waitlistuser_conv
      split: option.splits)

lemma fire_steps:
  assumes "\<forall>x \<in> set (videojob_coll (world s)). steps (snd x) = default_steps"
  shows "\<forall>x \<in> set (videojob_coll (world (fire V e s))). steps (snd x) = default_steps"
proof (cases e)
  case (Upload uuid fname data em)
  obtain r w' where eq: "upload_video V uuid fname data em (world s) = (r, w')"
    by (cases "upload_video V uuid fname data em (world s)")
  show ?thesis
  proof (cases r)
    case (Inl err)
    with upload_video_Inl[of V uuid fname data em "world s" err w'] eq Upload assms
    show ?thesis by simp
  next
    case (Inr res)
    obtain jid in_path where res: "res = (jid, in_path)" by (cases res)
    from upload_video_Inr[of V uuid fname data em "world s" jid in_path w'] eq Inr res
    obtain job where
      mk: "mk_VideoJob V em (uuid @ ''_'' @ (case fname of None \<Rightarrow> ''None'' | Some n \<Rightarrow> n))
             (int (length data)) ''queued'' 0 (Some ''analyze_content'') = Inr job"
      and coll: "videojob_coll w' = videojob_coll (world s) @ [(next_oid (world s), job_dict job uuid)]"
      by blast
    have "steps (job_dict job uuid) = default_steps"
      using mk_VideoJob_Inr[OF mk] by (simp add: job_dict_def)
    with coll assms Upload eq Inr res show ?thesis by simp
  qed
next
  case (Tick n)
  show ?thesis
  proof (cases "n < length (tasks s)")
    case True
    obtain pc' w' where eq: "task_step (t_job_id (tasks s ! n)) (t_pc (tasks s ! n)) (world s) = (pc', w')"
      by (cases "task_step (t_job_id (tasks s ! n)) (t_pc (tasks s ! n)) (world s)")
    from task_step_steps[OF assms, of "t_job_id (tasks s ! n)" "t_pc (tasks s ! n)"] eq
    have "\<forall>x \<in> set (videojob_coll w'). steps (snd x) = default_steps" by simp
    with Tick True eq show ?thesis by simp
  next
    case False
    with Tick assms show ?thesis by simp
  qed
next
  case (GetJob jid)
  with assms show ?thesis by (simp add: get_job_world)
next
  case (Waitlist payload)
  with assms show ?thesis by (simp add: waitlist_signup_world)
next
  case (GetDemoRender name)
  with assms show ?thesis by simp
next
  case ReadRoot
  with assms show ?thesis by simp
qed

lemma exec_steps:
  "\<forall>x \<in> set (videojob_coll (world s)). steps (snd x) = default_steps \<Longrightarrow>
   \<forall>x \<in> set (videojob_coll (world (exec V evs s))). steps (snd x) = default_steps"
proof (induction evs arbitrary: s)
  case Nil
  then show ?case by simp
next
  case (Cons e evs)
  from Cons.IH[OF fire_steps[OF Cons.prems]] show ?case by simp
qed

text \<open>
  C10. In every state the system reaches from its start, by any sequence of requests and
  task steps and under any faults, every job record carries the six step names in order
  in its \<open>steps\<close> field: upload creates it so, and no operation changes it afterwards.
\<close>

theorem steps_field_never_changes:
  "\<forall>x \<in> set (videojob_coll (world (exec V evs (init_system t0 fs)))).
     steps (snd x) = [''analyze_content'', ''detect_cuts'', ''auto_captions'',
                      ''select_music'', ''insert_b_roll'', ''color_and_export'']"
proof -
  have "\<forall>x \<in> set (videojob_coll (world (init_system t0 fs))). steps (snd x) = default_steps"
    by (simp add: init_system_def init_world_def)
  from exec_steps[OF this] show ?thesis by (simp add: default_steps_def)
qed

theorem steps_field_witness:
  "videojob_coll (world (exec accept_all
       [Upload ''j1'' (Some ''clip.mp4'') ''data'' (Some ''a@b.com''), Tick 0, Tick 0, GetJob ''j1'']
       (init_system 0 []))) \<noteq> [] \<and>
   steps (snd (hd (videojob_coll (world (exec accept_all
       [Upload ''j1'' (Some ''clip.mp4'') ''data'' (Some ''a@b.com''), Tick 0, Tick 0, GetJob ''j1'']
       (init_system 0 [])))))) =
     [''analyze_content'', ''detect_cuts'', ''auto_captions'',
      ''select_music'', ''insert_b_roll'', ''color_and_export'']"
proof -
  let ?evs = "[Upload ''j1'' (Some ''clip.mp4'') ''data'' (Some ''a@b.com''), Tick 0, Tick 0, GetJob ''j1'']"
  have ne: "videojob_coll (world (exec accept_all ?evs (init_system 0 []))) \<noteq> []" by code_simp
  note T = steps_field_never_changes[of accept_all ?evs 0 "[]", rule_format, OF hd_in_set[OF ne]]
  show ?thesis by (intro conjI ne T)
qed


subsection \<open>Records and control points\<close>

lemma nonterminal_not_terminal: "nonterminal_ok d \<Longrightarrow> \<not> terminal d"
  by (auto simp: nonterminal_ok_def terminal_def)

lemma doc_ok_not_terminal:
  "doc_ok (Running rest) d \<Longrightarrow> \<not> terminal d"
  "doc_ok (Handler e) d \<Longrightarrow> \<not> terminal d"
  by (simp_all add: nonterminal_not_terminal)

lemma suffix_last_step:
  assumes "suffix [sp] fake_ai_steps"
  shows "sp = (''color_and_export'', 100)"
proof -
  from assms obtain zs where "fake_ai_steps = zs @ [sp]" by (auto simp: suffix_def)
  then have "last fake_ai_steps = sp" by (metis last_snoc)
  then show ?thesis by (simp add: fake_ai_steps_def)
qed

lemma doc_ok_step:
  assumes "doc_ok (Running (sp # rest)) d"
  shows "doc_ok (Running rest) (set_processing (fst sp) (snd sp) t d)"
proof -
  from assms have suf: "suffix (sp # rest) fake_ai_steps" and nt: "nonterminal_ok d" by simp_all
  from suf have s1: "suffix rest fake_ai_steps" by (rule suffix_ConsD)
  from suf have "set (sp # rest) \<subseteq> set fake_ai_steps" by (rule set_mono_suffix)
  then have mem: "sp \<in> set fake_ai_steps" by simp
  have n2: "nonterminal_ok (set_processing (fst sp) (snd sp) t d)"
    using nt mem unfolding nonterminal_ok_def set_processing_def by auto
  have "snd sp = 100" if "rest = []"
    using suffix_last_step[of sp] suf that by simp
  with s1 n2 show ?thesis by (simp add: set_processing_def)
qed

lemma last_step_progress:
  "sp \<in> set fake_ai_steps \<Longrightarrow> (snd sp = 100) = (fst sp = ''color_and_export'')"
  by (auto simp: fake_ai_steps_def)

lemma nonterminal_progress:
  assumes "nonterminal_ok d"
  shows "(progress d = 100) = (current_step d = Some ''color_and_export'')"
proof -
  from assms consider "progress d = 0" "current_step d = Some ''analyze_content''"
    | sp where "sp \<in> set fake_ai_steps" "current_step d = Some (fst sp)" "progress d = snd sp"
    unfolding nonterminal_ok_def by auto
  then show ?thesis
  proof cases
    case 1
    then show ?thesis by simp
  next
    case 2
    with last_step_progress[OF 2(1)] show ?thesis by simp
  qed
qed

lemma doc_ok_complete:
  assumes "doc_ok (Running []) d"
  shows "doc_ok Returned (set_completed u t d)"
proof -
  from assms have nt: "nonterminal_ok d" and p: "progress d = 100" by simp_all
  from nt have "render_url d = None" "error d = None" by (simp_all add: nonterminal_ok_def)
  with nonterminal_progress[OF nt] p show ?thesis
    by (simp add: terminal_ok_def set_completed_def)
qed

lemma doc_ok_fail:
  assumes "doc_ok (Handler e) d"
  shows "doc_ok Returned (set_failed m d)"
proof -
  from assms have nt: "nonterminal_ok d" by simp
  from nt have "render_url d = None" by (simp add: nonterminal_ok_def)
  with nonterminal_progress[OF nt] show ?thesis
    by (simp add: terminal_ok_def set_failed_def)
qed

lemma doc_ok_caught:
  "doc_ok (Running rest) d \<Longrightarrow> doc_ok (Handler e) d"
  "doc_ok (Handler e) d \<Longrightarrow> doc_ok (Escaped e') d"
  by simp_all

lemma job_id_set [simp]:
  "job_id (set_completed u n d) = job_id d"
  "job_id (set_failed m d) = job_id d"
  by (simp_all add: set_completed_def set_failed_def)

subsection \<open>What one update does to the collection\<close>

lemma update_one_result:
  "next_fault w = Some m \<Longrightarrow> update_one flt upd w = (Inl (PyException m), drop_fault w)"
  "next_fault w = None \<Longrightarrow>
     update_one flt upd w =
       (Inr (), (drop_fault w)\<lparr>videojob_coll := update_first flt upd (videojob_coll w)\<rparr>)"
  by (simp_all add: update_one_conv)

lemma update_by_job_id:
  assumes "update_one (\<lambda>(i, d). job_id d = jid) upd w = (r, w1)"
  shows "next_oid w1 = next_oid w \<and>
         ((\<exists>e. r = Inl e) \<and> videojob_coll w1 = videojob_coll w \<or>
          r = Inr () \<and> videojob_coll w1 = videojob_coll w \<and> jid \<notin> set (job_ids w) \<or>
          r = Inr () \<and>
            (\<exists>k. k < length (videojob_coll w) \<and> job_id (snd (videojob_coll w ! k)) = jid \<and>
                  videojob_coll w1 =
                    (videojob_coll w)[k := (fst (videojob_coll w ! k), upd (snd (videojob_coll w ! k)))]))"
proof (cases "next_fault w")
  case (Some m)
  from assms update_one_result(1)[OF Some, of "\<lambda>(i, d). job_id d = jid" upd]
  have "r = Inl (PyException m)" and "w1 = drop_fault w" by simp_all
  then show ?thesis by simp
next
  case None
  let ?xs = "videojob_coll w"
  let ?P = "\<lambda>(i, d). job_id d = jid"
  from assms update_one_result(2)[OF None, of ?P upd]
  have r: "r = Inr ()" and w1: "w1 = (drop_fault w)\<lparr>videojob_coll := update_first ?P upd ?xs\<rparr>"
    by simp_all
  have n1: "next_oid w1 = next_oid w" by (simp add: w1)
  have c1: "videojob_coll w1 = update_first ?P upd ?xs" by (simp add: w1)
  show ?thesis
  proof (cases "find ?P ?xs")
    case None
    then have nm: "\<forall>x \<in> set ?xs. \<not> ?P x" by (auto simp: find_None_iff)
    then have a: "jid \<notin> set (job_ids w)" by (auto simp: job_ids_def)
    have c2: "videojob_coll w1 = ?xs" using c1 update_first_no_match[OF nm, of upd] by simp
    show ?thesis by (rule conjI[OF n1 disjI2[OF disjI1[OF conjI[OF r conjI[OF c2 a]]]]])
  next
    case (Some x)
    then obtain k where k: "k < length ?xs" "?P (?xs ! k)" "\<forall>m<k. \<not> ?P (?xs ! m)"
      unfolding find_Some_iff by auto
    have j: "job_id (snd (?xs ! k)) = jid" using k(2) by (simp add: case_prod_beta)
    have c2: "videojob_coll w1 = ?xs[k := (fst (?xs ! k), upd (snd (?xs ! k)))]"
      using c1 update_first_at[OF k(1,2,3), of upd] by simp
    show ?thesis by (intro conjI disjI2 exI[of _ k]) (rule n1 r k(1) j c2)+
  qed
qed

lemma find_one_result:
  "next_fault w = Some m \<Longrightarrow> find_one jid w = (Inl (PyException m), drop_fault w)"
  "next_fault w = None \<Longrightarrow>
     find_one jid w = (Inr (find (\<lambda>(i, d). job_id d = jid) (videojob_coll w)), drop_fault w)"
  by (simp_all add: find_one_conv)

lemma step_update_change:
  assumes dist: "distinct (map fst (videojob_coll w))"
    and su: "step_update jid sp w = (r, w1)"
  shows "next_oid w1 = next_oid w \<and>
         ((\<exists>e. r = Inl e) \<and> videojob_coll w1 = videojob_coll w \<or>
          r = Inr () \<and>
            (\<exists>k. k < length (videojob_coll w) \<and> job_id (snd (videojob_coll w ! k)) = jid \<and>
                  videojob_coll w1 =
                    (videojob_coll w)[k := (fst (videojob_coll w ! k),
                       set_processing (fst sp) (snd sp) (clock w) (snd (videojob_coll w ! k)))]))"
proof -
  let ?xs = "videojob_coll w"
  let ?P = "\<lambda>(i, d). job_id d = jid"
  let ?upd = "set_processing (fst sp) (snd sp) (clock w)"
  have failing: ?thesis if "r = Inl e" "w1 = drop_fault w \<or> w1 = drop_fault (drop_fault w)" for e
  proof -
    from that(2) have n: "next_oid w1 = next_oid w" and c: "videojob_coll w1 = ?xs" by auto
    have "\<exists>e. r = Inl e" using that(1) by simp
    then show ?thesis by (intro conjI disjI1) (rule n c | assumption)+
  qed
  show ?thesis
  proof (cases "next_fault w")
    case (Some m)
    from su find_one_result(1)[OF Some, of jid]
    have "r = Inl (PyException m)" "w1 = drop_fault w" by (simp_all add: step_update_def)
    then show ?thesis using failing by simp
  next
    case nf: None
    note fo = find_one_result(2)[OF nf, of jid]
    show ?thesis
    proof (cases "find ?P ?xs")
      case None
      from su fo None have "r = Inl (PyException not_subscriptable)" "w1 = drop_fault w"
        by (simp_all add: step_update_def)
      then show ?thesis using failing by simp
    next
      case (Some x)
      obtain i d where x: "x = (i, d)" by (cases x)
      from Some obtain k where k: "k < length ?xs" "?P (?xs ! k)" "x = ?xs ! k"
        unfolding find_Some_iff by auto
      have j: "job_id (snd (?xs ! k)) = jid" using k(2) by (simp add: case_prod_beta)
      have su': "update_one (\<lambda>(i', d'). i' = i) ?upd (drop_fault w) = (r, w1)"
        using su fo Some x by (simp add: step_update_def utcnow_def)
      show ?thesis
      proof (cases "next_fault (drop_fault w)")
        case (Some m)
        from su' update_one_result(1)[OF Some, of "\<lambda>(i', d'). i' = i" ?upd]
        have "r = Inl (PyException m)" "w1 = drop_fault (drop_fault w)" by simp_all
        then show ?thesis using failing by simp
      next
        case None
        from su' update_one_result(2)[OF None, of "\<lambda>(i', d'). i' = i" ?upd]
        have r: "r = Inr ()"
          and w1: "w1 = (drop_fault (drop_fault w))\<lparr>videojob_coll :=
                          update_first (\<lambda>(i', d'). i' = i) ?upd ?xs\<rparr>"
          by simp_all
        have n1: "next_oid w1 = next_oid w" by (simp add: w1)
        have xk: "?xs ! k = (i, d)" using k(3) x by simp
        have fi: "fst (?xs ! k) = i" by (simp add: xk)
        have first: "\<forall>m<k. \<not> (\<lambda>(i', d'). i' = i) (?xs ! m)"
          using distinct_fst_first[OF dist k(1)] unfolding fi .
        have here: "(\<lambda>(i', d'). i' = i) (?xs ! k)" by (simp add: xk)
        have c2: "videojob_coll w1 = ?xs[k := (fst (?xs ! k), ?upd (snd (?xs ! k)))]"
          using update_first_at[OF k(1) here first, of ?upd] by (simp add: w1)
        show ?thesis by (intro conjI disjI2 exI[of _ k]) (rule n1 r k(1) j c2)+
      qed
    qed
  qed
qed

lemma task_step_change:
  assumes dist: "distinct (map fst (videojob_coll w))"
    and ts: "task_step jid pc w = (pc', w')"
  shows "next_oid w' = next_oid w \<and>
    (videojob_coll w' = videojob_coll w \<and>
       ((\<forall>d. doc_ok pc d \<longrightarrow> doc_ok pc' d) \<or> jid \<notin> set (job_ids w)) \<or>
     (\<exists>k d'. k < length (videojob_coll w) \<and> job_id (snd (videojob_coll w ! k)) = jid \<and>
        job_id d' = jid \<and>
        videojob_coll w' = (videojob_coll w)[k := (fst (videojob_coll w ! k), d')] \<and>
        (doc_ok pc (snd (videojob_coll w ! k)) \<longrightarrow>
           doc_ok pc' d' \<and> \<not> terminal (snd (videojob_coll w ! k)))))"
proof -
  let ?xs = "videojob_coll w"
  have sameI: ?thesis
    if "next_oid w' = next_oid w" "videojob_coll w' = ?xs"
       "(\<forall>d. doc_ok pc d \<longrightarrow> doc_ok pc' d) \<or> jid \<notin> set (job_ids w)"
    by (rule conjI[OF that(1) disjI1[OF conjI[OF that(2) that(3)]]])
  have updI: ?thesis
    if "next_oid w' = next_oid w" "k < length ?xs" "job_id (snd (?xs ! k)) = jid" "job_id d' = jid"
       "videojob_coll w' = ?xs[k := (fst (?xs ! k), d')]"
       "doc_ok pc (snd (?xs ! k)) \<longrightarrow> doc_ok pc' d' \<and> \<not> terminal (snd (?xs ! k))" for k d'
    by (intro conjI disjI2 exI[of _ k] exI[of _ d']) (rule that)+
  show ?thesis
  proof (cases pc)
    case (Running steps_left)
    show ?thesis
    proof (cases steps_left)
      case Nil
      obtain r w1 where cu: "complete_update jid w = (r, w1)" by (cases "complete_update jid w")
      note ch = update_by_job_id[OF cu[unfolded complete_update_def]]
      note n = ch[THEN conjunct1]
      from ch[THEN conjunct2] show ?thesis
      proof (elim disjE conjE exE)
        fix e assume r: "r = Inl e" and c: "videojob_coll w1 = ?xs"
        from ts cu r Running Nil have p: "pc' = Handler e" and w: "w' = w1" by simp_all
        have "\<forall>d. doc_ok pc d \<longrightarrow> doc_ok pc' d" unfolding p Running by simp
        then show ?thesis using n c unfolding w[symmetric] by (intro sameI disjI1)
      next
        assume r: "r = Inr ()" and c: "videojob_coll w1 = ?xs" and a: "jid \<notin> set (job_ids w)"
        from ts cu r Running Nil have w: "w' = w1" by simp
        show ?thesis using n c a unfolding w[symmetric] by (intro sameI disjI2)
      next
        fix k assume r: "r = Inr ()" and k: "k < length ?xs" "job_id (snd (?xs ! k)) = jid"
          and c: "videojob_coll w1 = ?xs[k := (fst (?xs ! k),
                    set_completed (render_url_of jid) (utcnow w) (snd (?xs ! k)))]"
        from ts cu r Running Nil have p: "pc' = Returned" and w: "w' = w1" by simp_all
        have d: "doc_ok pc (snd (?xs ! k)) \<longrightarrow>
                 doc_ok pc' (set_completed (render_url_of jid) (utcnow w) (snd (?xs ! k))) \<and>
                 \<not> terminal (snd (?xs ! k))"
          unfolding p Running Nil using doc_ok_complete doc_ok_not_terminal(1) by blast
        have jd: "job_id (set_completed (render_url_of jid) (utcnow w) (snd (?xs ! k))) = jid"
          using k(2) by simp
        show ?thesis using n k jd c d unfolding w[symmetric] by (intro updI)
      qed
    next
      case (Cons sp rest)
      obtain r w1 where su: "step_update jid sp w = (r, w1)" by (cases "step_update jid sp w")
      note ch = step_update_change[OF dist su]
      note n = ch[THEN conjunct1]
      from ch[THEN conjunct2] show ?thesis
      proof (elim disjE conjE exE)
        fix e assume r: "r = Inl e" and c: "videojob_coll w1 = ?xs"
        from ts su r Running Cons have p: "pc' = Handler e" and w: "w' = w1" by simp_all
        have "\<forall>d. doc_ok pc d \<longrightarrow> doc_ok pc' d" unfolding p Running by simp
        then show ?thesis using n c unfolding w[symmetric] by (intro sameI disjI1)
      next
        fix k assume r: "r = Inr ()" and k: "k < length ?xs" "job_id (snd (?xs ! k)) = jid"
          and c: "videojob_coll w1 = ?xs[k := (fst (?xs ! k),
                    set_processing (fst sp) (snd sp) (clock w) (snd (?xs ! k)))]"
        from ts su r Running Cons have p: "pc' = Running rest" and w: "w' = sleep 600 w1" by simp_all
        have n': "next_oid w' = next_oid w" using n by (simp add: w)
        have c': "videojob_coll w' = ?xs[k := (fst (?xs ! k),
                    set_processing (fst sp) (snd sp) (clock w) (snd (?xs ! k)))]"
          using c by (simp add: w)
        have d: "doc_ok pc (snd (?xs ! k)) \<longrightarrow>
                 doc_ok pc' (set_processing (fst sp) (snd sp) (clock w) (snd (?xs ! k))) \<and>
                 \<not> terminal (snd (?xs ! k))"
          unfolding p Running Cons using doc_ok_step doc_ok_not_terminal(1) by blast
        have jd: "job_id (set_processing (fst sp) (snd sp) (clock w) (snd (?xs ! k))) = jid"
          using k(2) by simp
        show ?thesis using n' k jd c' d by (intro updI)
      qed
    qed
  next
    case (Handler e)
    obtain r w1 where fu: "failed_update jid e w = (r, w1)" by (cases "failed_update jid e w")
    note ch = update_by_job_id[OF fu[unfolded failed_update_def]]
    note n = ch[THEN conjunct1]
    from ch[THEN conjunct2] show ?thesis
    proof (elim disjE conjE exE)
      fix e' assume r: "r = Inl e'" and c: "videojob_coll w1 = ?xs"
      from ts fu r Handler have p: "pc' = Escaped e'" and w: "w' = w1" by simp_all
      have "\<forall>d. doc_ok pc d \<longrightarrow> doc_ok pc' d" unfolding p Handler by simp
      then show ?thesis using n c unfolding w[symmetric] by (intro sameI disjI1)
    next
      assume r: "r = Inr ()" and c: "videojob_coll w1 = ?xs" and a: "jid \<notin> set (job_ids w)"
      from ts fu r Handler have w: "w' = w1" by simp
      show ?thesis using n c a unfolding w[symmetric] by (intro sameI disjI2)
    next
      fix k assume r: "r = Inr ()" and k: "k < length ?xs" "job_id (snd (?xs ! k)) = jid"
        and c: "videojob_coll w1 = ?xs[k := (fst (?xs ! k), set_failed (str_exn e) (snd (?xs ! k)))]"
      from ts fu r Handler have p: "pc' = Returned" and w: "w' = w1" by simp_all
      have d: "doc_ok pc (snd (?xs ! k)) \<longrightarrow>
               doc_ok pc' (set_failed (str_exn e) (snd (?xs ! k))) \<and> \<not> terminal (snd (?xs ! k))"
        unfolding p Handler using doc_ok_fail doc_ok_not_terminal(2) by blast
      have jd: "job_id (set_failed (str_exn e) (snd (?xs ! k))) = jid" using k(2) by simp
      show ?thesis using n k jd c d unfolding w[symmetric] by (intro updI)
    qed
  next
    case Returned
    with ts have "pc' = pc" "w' = w" by simp_all
    then show ?thesis by (intro sameI disjI1) simp_all
  next
    case (Escaped e)
    with ts have "pc' = pc" "w' = w" by simp_all
    then show ?thesis by (intro sameI disjI1) simp_all
  qed
qed

subsection \<open>Lists with unique keys\<close>

lemma set_update_key:
  assumes "distinct (map f xs)" "n < length xs" "x \<in> set (xs[n := y])"
  shows "x = y \<or> (x \<in> set xs \<and> f x \<noteq> f (xs ! n))"
proof -
  from assms(3) obtain m where m: "m < length xs" "xs[n := y] ! m = x"
    by (auto simp: in_set_conv_nth)
  show ?thesis
  proof (cases "m = n")
    case True
    with m assms(2) show ?thesis by simp
  next
    case False
    with m have x: "x = xs ! m" by simp
    from assms(1,2) m(1) have "(map f xs ! m = map f xs ! n) = (m = n)"
      by (intro nth_eq_iff_index_eq) simp_all
    with False m(1) assms(2) have "f (xs ! m) \<noteq> f (xs ! n)" by simp
    with x m(1) show ?thesis by simp
  qed
qed

lemma map_update_key:
  assumes "n < length xs" "f y = f (xs ! n)"
  shows "map f (xs[n := y]) = map f xs"
  by (rule nth_equalityI) (use assms in \<open>auto simp: nth_list_update\<close>)

lemma pairs_update:
  assumes "\<forall>t\<in>T. \<forall>x\<in>X. ft t = fx x \<longrightarrow> R t x"
    and "\<forall>t1\<in>T'. t1 = t' \<or> (t1 \<in> T \<and> ft t1 \<noteq> j)"
    and "\<forall>x\<in>X'. x = x' \<or> (x \<in> X \<and> fx x \<noteq> j)"
    and "ft t' = j" "fx x' = j" "R t' x'"
  shows "\<forall>t\<in>T'. \<forall>x\<in>X'. ft t = fx x \<longrightarrow> R t x"
proof (intro ballI impI)
  fix t x assume t: "t \<in> T'" and x: "x \<in> X'" and e: "ft t = fx x"
  from assms(2) t have ct: "t = t' \<or> (t \<in> T \<and> ft t \<noteq> j)" by simp
  from assms(3) x have cx: "x = x' \<or> (x \<in> X \<and> fx x \<noteq> j)" by simp
  from ct cx e assms(1,4,5,6) show "R t x" by metis
qed

lemma pairs_same:
  assumes "\<forall>t\<in>T. \<forall>x\<in>X. ft t = fx x \<longrightarrow> R t x"
    and "\<forall>t1\<in>T'. t1 = t' \<or> (t1 \<in> T \<and> ft t1 \<noteq> j)"
    and "ft t' = j" "\<forall>x\<in>X. fx x = j \<longrightarrow> R t' x"
  shows "\<forall>t\<in>T'. \<forall>x\<in>X. ft t = fx x \<longrightarrow> R t x"
proof (intro ballI impI)
  fix t x assume t: "t \<in> T'" and x: "x \<in> X" and e: "ft t = fx x"
  from assms(2) t have ct: "t = t' \<or> (t \<in> T \<and> ft t \<noteq> j)" by simp
  from ct x e assms(1,3,4) show "R t x" by metis
qed

lemma sys_invD:
  assumes "sys_inv s"
  shows "distinct (map fst (videojob_coll (world s)))"
    and "\<forall>x \<in> set (videojob_coll (world s)). fst x < next_oid (world s)"
    and "distinct (job_ids (world s))"
    and "distinct (map t_job_id (tasks s))"
    and "set (job_ids (world s)) \<subseteq> set (map t_job_id (tasks s))"
    and "\<forall>t \<in> set (tasks s). \<forall>x \<in> set (videojob_coll (world s)).
           t_job_id t = job_id (snd x) \<longrightarrow> doc_ok (t_pc t) (snd x)"
  using assms unfolding sys_inv_def by simp_all

lemma sys_invI:
  assumes "distinct (map fst (videojob_coll (world s)))"
    and "\<forall>x \<in> set (videojob_coll (world s)). fst x < next_oid (world s)"
    and "distinct (job_ids (world s))"
    and "distinct (map t_job_id (tasks s))"
    and "set (job_ids (world s)) \<subseteq> set (map t_job_id (tasks s))"
    and "\<forall>t \<in> set (tasks s). \<forall>x \<in> set (videojob_coll (world s)).
           t_job_id t = job_id (snd x) \<longrightarrow> doc_ok (t_pc t) (snd x)"
  shows "sys_inv s"
  unfolding sys_inv_def by (intro conjI assms)

lemma job_ids_map: "job_ids w = map (job_id \<circ> snd) (videojob_coll w)"
  by (simp add: job_ids_def case_prod_beta comp_def)

subsection \<open>A task step preserves the invariant\<close>

lemma sys_inv_tick:
  assumes inv: "sys_inv s" and n: "n < length (tasks s)"
    and ts: "task_step (t_job_id (tasks s ! n)) (t_pc (tasks s ! n)) (world s) = (pc', w')"
  shows "sys_inv (s\<lparr>world := w', tasks := (tasks s)[n := (tasks s ! n)\<lparr>t_pc := pc'\<rparr>]\<rparr>)"
proof -
  let ?w = "world s"
  let ?ts = "tasks s"
  let ?t = "?ts ! n"
  let ?j = "t_job_id ?t"
  let ?pc = "t_pc ?t"
  let ?t' = "?t\<lparr>t_pc := pc'\<rparr>"
  let ?ts' = "?ts[n := ?t']"
  let ?xs = "videojob_coll ?w"
  let ?s' = "s\<lparr>world := w', tasks := ?ts'\<rparr>"
  note I = sys_invD[OF inv]
  note ch = task_step_change[OF I(1) ts]
  have sel: "world ?s' = w'" "tasks ?s' = ?ts'" by simp_all
  have n1: "next_oid w' = next_oid ?w" by (rule ch[THEN conjunct1])
  have T1: "map t_job_id ?ts' = map t_job_id ?ts" by (rule map_update_key[OF n]) simp
  have T2: "\<forall>t1\<in>set ?ts'. t1 = ?t' \<or> (t1 \<in> set ?ts \<and> t_job_id t1 \<noteq> ?j)"
    by (intro ballI) (rule set_update_key[OF I(4) n])
  have tj: "t_job_id ?t' = ?j" by simp
  have tin: "?t \<in> set ?ts" using n by simp
  have same: "sys_inv ?s'"
    if c: "videojob_coll w' = ?xs"
      and new: "\<forall>x\<in>set ?xs. job_id (snd x) = ?j \<longrightarrow> doc_ok (t_pc ?t') (snd x)"
  proof (rule sys_invI)
    have jc: "job_ids w' = job_ids ?w" by (simp add: job_ids_def c)
    show "distinct (map fst (videojob_coll (world ?s')))" unfolding sel c by (rule I(1))
    show "\<forall>x \<in> set (videojob_coll (world ?s')). fst x < next_oid (world ?s')"
      unfolding sel c n1 by (rule I(2))
    show "distinct (job_ids (world ?s'))" unfolding sel jc by (rule I(3))
    show "distinct (map t_job_id (tasks ?s'))" unfolding sel T1 by (rule I(4))
    show "set (job_ids (world ?s')) \<subseteq> set (map t_job_id (tasks ?s'))"
      unfolding sel T1 jc by (rule I(5))
    show "\<forall>t \<in> set (tasks ?s'). \<forall>x \<in> set (videojob_coll (world ?s')).
            t_job_id t = job_id (snd x) \<longrightarrow> doc_ok (t_pc t) (snd x)"
      unfolding sel c
      by (rule pairs_same[where ft = t_job_id and fx = "\<lambda>x. job_id (snd x)"
            and R = "\<lambda>t x. doc_ok (t_pc t) (snd x)", OF I(6) T2 tj new])
  qed
  from ch[THEN conjunct2] show ?thesis
  proof (elim disjE conjE exE)
    assume c: "videojob_coll w' = ?xs" and m: "\<forall>d. doc_ok ?pc d \<longrightarrow> doc_ok pc' d"
    have "\<forall>x\<in>set ?xs. job_id (snd x) = ?j \<longrightarrow> doc_ok (t_pc ?t') (snd x)"
    proof (intro ballI impI)
      fix x assume x: "x \<in> set ?xs" and e: "job_id (snd x) = ?j"
      from I(6)[rule_format, OF tin x] e have "doc_ok ?pc (snd x)" by simp
      with m show "doc_ok (t_pc ?t') (snd x)" by simp
    qed
    with c show ?thesis by (rule same)
  next
    assume c: "videojob_coll w' = ?xs" and a: "?j \<notin> set (job_ids ?w)"
    have "\<forall>x\<in>set ?xs. job_id (snd x) = ?j \<longrightarrow> doc_ok (t_pc ?t') (snd x)"
    proof (intro ballI impI)
      fix x assume x: "x \<in> set ?xs" and e: "job_id (snd x) = ?j"
      from x have "job_id (snd x) \<in> set (job_ids ?w)" by (simp add: job_ids_map)
      with a e show "doc_ok (t_pc ?t') (snd x)" by simp
    qed
    with c show ?thesis by (rule same)
  next
    fix k d'
    assume k: "k < length ?xs" "job_id (snd (?xs ! k)) = ?j" "job_id d' = ?j"
      and c: "videojob_coll w' = ?xs[k := (fst (?xs ! k), d')]"
      and d: "doc_ok ?pc (snd (?xs ! k)) \<longrightarrow> doc_ok pc' d' \<and> \<not> terminal (snd (?xs ! k))"
    let ?x' = "(fst (?xs ! k), d')"
    have xin: "?xs ! k \<in> set ?xs" using k(1) by simp
    have old: "doc_ok ?pc (snd (?xs ! k))" using I(6)[rule_format, OF tin xin] k(2) by simp
    have R': "doc_ok (t_pc ?t') (snd ?x')" using d old by simp
    have xj: "job_id (snd ?x') = ?j" using k(3) by simp
    have D1: "map fst (?xs[k := ?x']) = map fst ?xs" by (rule map_update_key[OF k(1)]) simp
    have D2: "map (job_id \<circ> snd) (?xs[k := ?x']) = map (job_id \<circ> snd) ?xs"
      by (rule map_update_key[OF k(1)]) (simp add: k)
    have dj: "distinct (map (job_id \<circ> snd) ?xs)" using I(3) by (simp add: job_ids_map)
    have "\<forall>x\<in>set (?xs[k := ?x']). x = ?x' \<or>
            (x \<in> set ?xs \<and> (job_id \<circ> snd) x \<noteq> (job_id \<circ> snd) (?xs ! k))"
      by (intro ballI) (rule set_update_key[OF dj k(1)])
    then have D3: "\<forall>x\<in>set (?xs[k := ?x']). x = ?x' \<or> (x \<in> set ?xs \<and> job_id (snd x) \<noteq> ?j)"
      using k(2) by simp
    have jc: "job_ids w' = job_ids ?w" unfolding job_ids_map c by (rule D2)
    show ?thesis
    proof (rule sys_invI)
      show "distinct (map fst (videojob_coll (world ?s')))" unfolding sel c D1 by (rule I(1))
      show "\<forall>x \<in> set (videojob_coll (world ?s')). fst x < next_oid (world ?s')"
        unfolding sel n1
      proof
        fix x assume "x \<in> set (videojob_coll w')"
        then have "fst x \<in> set (map fst (videojob_coll w'))" by simp
        then have "fst x \<in> set (map fst ?xs)" unfolding c D1 .
        then obtain y where "y \<in> set ?xs" "fst y = fst x" by auto
        with I(2) show "fst x < next_oid ?w" by auto
      qed
      show "distinct (job_ids (world ?s'))" unfolding sel jc by (rule I(3))
      show "distinct (map t_job_id (tasks ?s'))" unfolding sel T1 by (rule I(4))
      show "set (job_ids (world ?s')) \<subseteq> set (map t_job_id (tasks ?s'))"
        unfolding sel T1 jc by (rule I(5))
      show "\<forall>t \<in> set (tasks ?s'). \<forall>x \<in> set (videojob_coll (world ?s')).
              t_job_id t = job_id (snd x) \<longrightarrow> doc_ok (t_pc t) (snd x)"
        unfolding sel c
        by (rule pairs_update[where ft = t_job_id and fx = "\<lambda>x. job_id (snd x)"
              and R = "\<lambda>t x. doc_ok (t_pc t) (snd x)", OF I(6) T2 D3 tj xj R'])
    qed
  qed
qed

subsection \<open>Requests preserve the invariant\<close>

lemma pairs_append:
  assumes "\<forall>t\<in>T. \<forall>x\<in>X. ft t = fx x \<longrightarrow> R t x"
    and "\<forall>t\<in>T. ft t \<noteq> j" "\<forall>x\<in>X. fx x \<noteq> j"
    and "ft t' = j" "fx x' = j" "R t' x'"
  shows "\<forall>t\<in>insert t' T. \<forall>x\<in>insert x' X. ft t = fx x \<longrightarrow> R t x"
proof (intro ballI impI)
  fix t x assume t: "t \<in> insert t' T" and x: "x \<in> insert x' X" and e: "ft t = fx x"
  from t have ct: "t = t' \<or> (t \<in> T \<and> ft t \<noteq> j)" using assms(2) by auto
  from x have cx: "x = x' \<or> (x \<in> X \<and> fx x \<noteq> j)" using assms(3) by auto
  from ct cx e assms(1,4,5,6) show "R t x" by metis
qed

lemma sys_inv_world:
  assumes inv: "sys_inv s"
    and c: "videojob_coll w' = videojob_coll (world s)"
    and n: "next_oid (world s) \<le> next_oid w'"
  shows "sys_inv (s\<lparr>world := w'\<rparr>)"
proof (rule sys_invI)
  let ?s' = "s\<lparr>world := w'\<rparr>"
  note I = sys_invD[OF inv]
  have sel: "world ?s' = w'" "tasks ?s' = tasks s" by simp_all
  have jc: "job_ids w' = job_ids (world s)" by (simp add: job_ids_def c)
  show "distinct (map fst (videojob_coll (world ?s')))" unfolding sel c by (rule I(1))
  show "\<forall>x \<in> set (videojob_coll (world ?s')). fst x < next_oid (world ?s')"
    unfolding sel c using I(2) n by auto
  show "distinct (job_ids (world ?s'))" unfolding sel jc by (rule I(3))
  show "distinct (map t_job_id (tasks ?s'))" unfolding sel by (rule I(4))
  show "set (job_ids (world ?s')) \<subseteq> set (map t_job_id (tasks ?s'))"
    unfolding sel jc by (rule I(5))
  show "\<forall>t \<in> set (tasks ?s'). \<forall>x \<in> set (videojob_coll (world ?s')).
          t_job_id t = job_id (snd x) \<longrightarrow> doc_ok (t_pc t) (snd x)"
    unfolding sel c by (rule I(6))
qed

lemma doc_ok_created:
  assumes "mk_VideoJob V em fn sz ''queued'' 0 (Some ''analyze_content'') = Inr job"
  shows "doc_ok (Running fake_ai_steps) (job_dict job uuid)"
proof -
  from mk_VideoJob_Inr[OF assms] have "nonterminal_ok (job_dict job uuid)"
    by (simp add: nonterminal_ok_def job_dict_def)
  moreover have "fake_ai_steps \<noteq> []" by (simp add: fake_ai_steps_def)
  ultimately show ?thesis by (simp add: suffix_def)
qed

lemma sys_inv_upload:
  assumes inv: "sys_inv s"
    and f1: "uuid \<notin> set (map t_job_id (tasks s))"
    and f2: "uuid \<notin> set (job_ids (world s))"
    and up: "upload_video V uuid fname data em (world s) = (Inr (jid, in_path), w')"
  shows "sys_inv (s\<lparr>world := w',
           tasks := tasks s @ [\<lparr>t_job_id = jid, t_input_path = in_path,
                                t_pc = Running fake_ai_steps\<rparr>]\<rparr>)"
proof -
  let ?w = "world s"
  let ?xs = "videojob_coll ?w"
  let ?ts = "tasks s"
  let ?t' = "\<lparr>t_job_id = jid, t_input_path = in_path, t_pc = Running fake_ai_steps\<rparr>"
  let ?s' = "s\<lparr>world := w', tasks := ?ts @ [?t']\<rparr>"
  note I = sys_invD[OF inv]
  from upload_video_Inr[OF up] obtain job where
    j: "jid = uuid"
    and mk: "mk_VideoJob V em (uuid @ ''_'' @ (case fname of None \<Rightarrow> ''None'' | Some n \<Rightarrow> n))
               (int (length data)) ''queued'' 0 (Some ''analyze_content'') = Inr job"
    and c: "videojob_coll w' = ?xs @ [(next_oid ?w, job_dict job uuid)]"
    and n: "next_oid w' = Suc (next_oid ?w)"
    by blast
  let ?x' = "(next_oid ?w, job_dict job uuid)"
  have sel: "world ?s' = w'" "tasks ?s' = ?ts @ [?t']" by simp_all
  have xj: "job_id (snd ?x') = uuid" by (simp add: job_dict_def)
  have tj: "t_job_id ?t' = uuid" by (simp add: j)
  have R': "doc_ok (t_pc ?t') (snd ?x')" using doc_ok_created[OF mk] by simp
  have jc: "job_ids w' = job_ids ?w @ [uuid]" by (simp add: job_ids_def c job_dict_def)
  have tm: "map t_job_id (?ts @ [?t']) = map t_job_id ?ts @ [uuid]" by (simp add: j)
  have nt: "\<forall>t\<in>set ?ts. t_job_id t \<noteq> uuid" using f1 by auto
  have nx: "\<forall>x\<in>set ?xs. job_id (snd x) \<noteq> uuid" using f2 by (auto simp: job_ids_map)
  show ?thesis
  proof (rule sys_invI)
    have "next_oid ?w \<notin> set (map fst ?xs)" using I(2) by auto
    with I(1) show "distinct (map fst (videojob_coll (world ?s')))" unfolding sel c by simp
    show "\<forall>x \<in> set (videojob_coll (world ?s')). fst x < next_oid (world ?s')"
      unfolding sel c n using I(2) by auto
    show "distinct (job_ids (world ?s'))" unfolding sel jc using I(3) f2 by simp
    show "distinct (map t_job_id (tasks ?s'))" unfolding sel tm using I(4) f1 by simp
    show "set (job_ids (world ?s')) \<subseteq> set (map t_job_id (tasks ?s'))"
      unfolding sel tm jc using I(5) by auto
    have "\<forall>t\<in>insert ?t' (set ?ts). \<forall>x\<in>insert ?x' (set ?xs).
            t_job_id t = job_id (snd x) \<longrightarrow> doc_ok (t_pc t) (snd x)"
      by (rule pairs_append[where ft = t_job_id and fx = "\<lambda>x. job_id (snd x)"
            and R = "\<lambda>t x. doc_ok (t_pc t) (snd x)", OF I(6) nt nx tj xj R'])
    then show "\<forall>t \<in> set (tasks ?s'). \<forall>x \<in> set (videojob_coll (world ?s')).
            t_job_id t = job_id (snd x) \<longrightarrow> doc_ok (t_pc t) (snd x)"
      unfolding sel c by simp
  qed
qed

lemma sys_inv_fire:
  assumes inv: "sys_inv s" and fr: "fresh e s"
  shows "sys_inv (fire V e s)"
proof (cases e)
  case (Upload uuid fname data em)
  obtain r w' where eq: "upload_video V uuid fname data em (world s) = (r, w')"
    by (cases "upload_video V uuid fname data em (world s)")
  show ?thesis
  proof (cases r)
    case (Inl err)
    from upload_video_Inl[of V uuid fname data em "world s" err w'] eq Inl
    have "videojob_coll w' = videojob_coll (world s)" "next_oid (world s) \<le> next_oid w'"
      by simp_all
    from sys_inv_world[OF inv this] Upload eq Inl show ?thesis by simp
  next
    case (Inr res)
    obtain jid in_path where res: "res = (jid, in_path)" by (cases res)
    from fr Upload have f1: "uuid \<notin> set (map t_job_id (tasks s))"
      and f2: "uuid \<notin> set (job_ids (world s))" by (simp_all add: job_ids_def)
    from eq Inr res have "upload_video V uuid fname data em (world s) = (Inr (jid, in_path), w')"
      by simp
    from sys_inv_upload[OF inv f1 f2 this] Upload eq Inr res show ?thesis by simp
  qed
next
  case (Tick n)
  show ?thesis
  proof (cases "n < length (tasks s)")
    case True
    obtain pc' w' where eq: "task_step (t_job_id (tasks s ! n)) (t_pc (tasks s ! n)) (world s) = (pc', w')"
      by (cases "task_step (t_job_id (tasks s ! n)) (t_pc (tasks s ! n)) (world s)")
    from sys_inv_tick[OF inv True eq] Tick True eq show ?thesis by simp
  next
    case False
    with Tick inv show ?thesis by simp
  qed
next
  case (GetJob jid)
  have "sys_inv (s\<lparr>world := drop_fault (world s)\<rparr>)" by (rule sys_inv_world[OF inv]) simp_all
  with GetJob show ?thesis by (simp add: get_job_world)
next
  case (Waitlist payload)
  have "sys_inv (s\<lparr>world := snd (waitlist_signup payload (world s))\<rparr>)"
    by (rule sys_inv_world[OF inv]) (simp_all add: waitlist_signup_world)
  with Waitlist show ?thesis by simp
next
  case (GetDemoRender name)
  with inv show ?thesis by simp
next
  case ReadRoot
  with inv show ?thesis by simp
qed

lemma sys_inv_init: "sys_inv (init_system t0 fs)"
  by (simp add: sys_inv_def init_system_def init_world_def job_ids_def)

lemma sys_inv_exec:
  "sys_inv s \<Longrightarrow> admissible V evs s \<Longrightarrow> sys_inv (exec V evs s)"
proof (induction evs arbitrary: s)
  case Nil
  then show ?case by simp
next
  case (Cons e evs)
  from Cons.prems have "fresh e s" "admissible V evs (fire V e s)" by simp_all
  with Cons.IH[OF sys_inv_fire[OF Cons.prems(1) this(1)]] show ?case by simp
qed

subsection \<open>Consequences for every record\<close>

lemma doc_ok_cases: "doc_ok pc d \<Longrightarrow> nonterminal_ok d \<or> terminal_ok d"
  by (cases pc) simp_all

lemma sys_inv_record:
  assumes inv: "sys_inv s" and x: "x \<in> set (videojob_coll (world s))"
  shows "nonterminal_ok (snd x) \<or> terminal_ok (snd x)"
proof -
  note I = sys_invD[OF inv]
  from x have "job_id (snd x) \<in> set (job_ids (world s))" by (simp add: job_ids_map)
  with I(5) have "job_id (snd x) \<in> set (map t_job_id (tasks s))" by (rule subsetD)
  then obtain t where t: "t \<in> set (tasks s)" "t_job_id t = job_id (snd x)" by auto
  from I(6)[rule_format, OF t(1) x t(2)] show ?thesis by (rule doc_ok_cases)
qed

lemma record_progress:
  assumes "nonterminal_ok d \<or> terminal_ok d"
  shows "(status d = ''completed'' \<longrightarrow> progress d = 100) \<and>
         (status d = ''queued'' \<longrightarrow> progress d = 0) \<and>
         (progress d = 100) = (current_step d = Some ''color_and_export'')"
  using assms
proof
  assume nt: "nonterminal_ok d"
  then have "status d \<noteq> ''completed''" "status d = ''queued'' \<longrightarrow> progress d = 0"
    unfolding nonterminal_ok_def by auto
  with nonterminal_progress[OF nt] show ?thesis by simp
next
  assume "terminal_ok d"
  then show ?thesis unfolding terminal_ok_def by auto
qed

lemma record_render_error:
  assumes "nonterminal_ok d \<or> terminal_ok d"
  shows "(status d = ''completed'' \<or> status d = ''failed'' \<longrightarrow>
            (render_url d \<noteq> None) \<noteq> (error d \<noteq> None)) \<and>
         (status d = ''queued'' \<or> status d = ''processing'' \<longrightarrow>
            render_url d = None \<and> error d = None) \<and>
         (status d = ''queued'' \<or> status d = ''processing'' \<or>
          status d = ''completed'' \<or> status d = ''failed'')"
  using assms
proof
  assume "nonterminal_ok d"
  then show ?thesis unfolding nonterminal_ok_def by auto
next
  assume "terminal_ok d"
  then show ?thesis unfolding terminal_ok_def by auto
qed

subsection \<open>Terminal records stay as they are\<close>

lemma fire_keeps_terminal:
  assumes inv: "sys_inv s" and fr: "fresh e s"
    and k: "k < length (videojob_coll (world s))"
    and t: "terminal (snd (videojob_coll (world s) ! k))"
  shows "k < length (videojob_coll (world (fire V e s))) \<and>
         videojob_coll (world (fire V e s)) ! k = videojob_coll (world s) ! k"
proof -
  let ?xs = "videojob_coll (world s)"
  have sameI: ?thesis if "videojob_coll (world (fire V e s)) = ?xs"
    unfolding that using k by simp
  show ?thesis
  proof (cases e)
    case (Upload uuid fname data em)
    obtain r w' where eq: "upload_video V uuid fname data em (world s) = (r, w')"
      by (cases "upload_video V uuid fname data em (world s)")
    show ?thesis
    proof (cases r)
      case (Inl err)
      from upload_video_Inl[of V uuid fname data em "world s" err w'] eq Inl
      have "videojob_coll w' = ?xs" by simp
      with Upload eq Inl show ?thesis by (intro sameI) simp
    next
      case (Inr res)
      obtain jid in_path where res: "res = (jid, in_path)" by (cases res)
      from upload_video_Inr[of V uuid fname data em "world s" jid in_path w'] eq Inr res
      obtain x' where "videojob_coll w' = ?xs @ [x']" by blast
      with Upload eq Inr res have "videojob_coll (world (fire V e s)) = ?xs @ [x']" by simp
      then show ?thesis using k by (simp add: nth_append)
    qed
  next
    case (Tick n)
    show ?thesis
    proof (cases "n < length (tasks s)")
      case False
      with Tick show ?thesis by (intro sameI) simp
    next
      case True
      note I = sys_invD[OF inv]
      let ?t = "tasks s ! n"
      obtain pc' w' where eq: "task_step (t_job_id ?t) (t_pc ?t) (world s) = (pc', w')"
        by (cases "task_step (t_job_id ?t) (t_pc ?t) (world s)")
      have w: "videojob_coll (world (fire V e s)) = videojob_coll w'"
        using Tick True eq by simp
      have tin: "?t \<in> set (tasks s)" using True by simp
      from task_step_change[OF I(1) eq, THEN conjunct2] show ?thesis
      proof (elim disjE conjE exE)
        assume "videojob_coll w' = ?xs"
        then show ?thesis using w by (intro sameI) simp
      next
        assume "videojob_coll w' = ?xs"
        then show ?thesis using w by (intro sameI) simp
      next
        fix k0 d'
        assume k0: "k0 < length ?xs" "job_id (snd (?xs ! k0)) = t_job_id ?t"
          and c: "videojob_coll w' = ?xs[k0 := (fst (?xs ! k0), d')]"
          and d: "doc_ok (t_pc ?t) (snd (?xs ! k0)) \<longrightarrow>
                    doc_ok pc' d' \<and> \<not> terminal (snd (?xs ! k0))"
        have xin: "?xs ! k0 \<in> set ?xs" using k0(1) by simp
        have "doc_ok (t_pc ?t) (snd (?xs ! k0))"
          using I(6)[rule_format, OF tin xin] k0(2) by simp
        with d have "\<not> terminal (snd (?xs ! k0))" by simp
        with t have "k \<noteq> k0" by auto
        then show ?thesis unfolding w c using k by simp
      qed
    qed
  next
    case (GetJob jid)
    then show ?thesis by (intro sameI) (simp add: get_job_world)
  next
    case (Waitlist payload)
    then show ?thesis by (intro sameI) (simp add: waitlist_signup_world)
  next
    case (GetDemoRender name)
    then show ?thesis by (intro sameI) simp
  next
    case ReadRoot
    then show ?thesis by (intro sameI) simp
  qed
qed

lemma exec_keeps_terminal:
  "sys_inv s \<Longrightarrow> admissible V evs s \<Longrightarrow> k < length (videojob_coll (world s)) \<Longrightarrow>
   terminal (snd (videojob_coll (world s) ! k)) \<Longrightarrow>
   k < length (videojob_coll (world (exec V evs s))) \<and>
   videojob_coll (world (exec V evs s)) ! k = videojob_coll (world s) ! k"
proof (induction evs arbitrary: s)
  case Nil
  then show ?case by simp
next
  case (Cons e evs)
  from Cons.prems(2) have fr: "fresh e s" and adm: "admissible V evs (fire V e s)" by simp_all
  note inv' = sys_inv_fire[OF Cons.prems(1) fr, of V]
  from fire_keeps_terminal[OF Cons.prems(1) fr Cons.prems(3,4), of V]
  have k': "k < length (videojob_coll (world (fire V e s)))"
    and same: "videojob_coll (world (fire V e s)) ! k = videojob_coll (world s) ! k"
    by simp_all
  from Cons.prems(4) same have t': "terminal (snd (videojob_coll (world (fire V e s)) ! k))"
    by simp
  from Cons.IH[OF inv' adm k' t'] same show ?case by simp
qed

subsection \<open>A task left alone runs fake_ai_processing\<close>

text \<open>
  The control points of the event system are those of the function: eight accesses of a
  task that nothing interleaves with end where \<open>fake_ai_processing\<close> ends, in the same
  world, returned or with the same escaping exception.
\<close>

lemma run_task_final [simp]:
  "run_task n jid Returned w = (Returned, w)"
  "run_task n jid (Escaped e) w = (Escaped e, w)"
  by (induction n) simp_all

lemma run_task_handler:
  "run_task (Suc n) jid (Handler e) w =
     (case failed_update jid e w of
        (Inl e', w') \<Rightarrow> (Escaped e', w')
      | (Inr _, w') \<Rightarrow> (Returned, w'))"
  by (simp split: prod.splits sum.splits)

lemma run_task_steps:
  "run_task (length sps + 2) jid (Running sps) w =
     (case (case (case run_steps jid sps w of
                    (Inl e, w1) \<Rightarrow> (Inl e, w1)
                  | (Inr _, w1) \<Rightarrow> complete_update jid w1) of
              (Inr _, w2) \<Rightarrow> (Inr (), w2)
            | (Inl e, w2) \<Rightarrow> failed_update jid e w2) of
        (Inr _, w3) \<Rightarrow> (Returned, w3)
      | (Inl e, w3) \<Rightarrow> (Escaped e, w3))"
proof (induction sps arbitrary: w)
  case Nil
  show ?case
  proof (cases "complete_update jid w")
    case (Pair r w1)
    then show ?thesis
      by (cases r) (simp_all add: eval_nat_numeral split: prod.splits sum.splits)
  qed
next
  case (Cons sp rest)
  show ?case
  proof (cases "step_update jid sp w")
    case (Pair r w1)
    show ?thesis
    proof (cases r)
      case (Inl e)
      have "run_task (length (sp # rest) + 2) jid (Running (sp # rest)) w =
              run_task (Suc (length rest + 1)) jid (Handler e) w1"
        using Pair Inl by simp
      also have "\<dots> = (case failed_update jid e w1 of
                          (Inl e', w') \<Rightarrow> (Escaped e', w')
                        | (Inr _, w') \<Rightarrow> (Returned, w'))"
        by (rule run_task_handler)
      finally show ?thesis using Pair Inl by (simp split: prod.splits sum.splits)
    next
      case (Inr u)
      have "run_task (length (sp # rest) + 2) jid (Running (sp # rest)) w =
              run_task (length rest + 2) jid (Running rest) (sleep 600 w1)"
        using Pair Inr by simp
      with Cons.IH[of "sleep 600 w1"] Pair Inr show ?thesis by simp
    qed
  qed
qed

lemma run_task_fake_ai_processing:
  "run_task 8 jid (Running fake_ai_steps) w =
     (case fake_ai_processing jid input_path w of
        (Inr _, w') \<Rightarrow> (Returned, w')
      | (Inl e, w') \<Rightarrow> (Escaped e, w'))"
proof -
  have l: "length fake_ai_steps + 2 = 8" by (simp add: fake_ai_steps_def)
  have "run_task 8 jid (Running fake_ai_steps) w =
          run_task (length fake_ai_steps + 2) jid (Running fake_ai_steps) w"
    by (simp only: l)
  also note run_task_steps
  finally show ?thesis by (simp only: fake_ai_processing_def)
qed

subsection \<open>Three runs of one job\<close>

lemma admissible_ticks: "admissible V (replicate n (Tick k)) s"
  by (induction n arbitrary: s) simp_all

lemma admissible_upload_and_ticks: "admissible V (upload_and_ticks n) (init_system t0 fs)"
  by (simp add: upload_and_ticks_def admissible_ticks init_system_def init_world_def)

lemma state_after_six_steps:
  "exec accept_all (upload_and_ticks 6) (init_system 0 []) =
     \<lparr>world =
        \<lparr>videojob_coll = [(0, \<lparr>email = Some ''a@b.com'', filename = ''j1_clip.mp4'',
               size_bytes = 4, status = ''processing'', progress = 100,
               steps = default_steps,
               current_step = Some ''color_and_export'',
               render_url = None, error = None,
               job_id = ''j1'', updated_at = Some 3000\<rparr>)],
         waitlistuser_coll = [], next_oid = 1,
         files = [(''uploads/j1_clip.mp4'', ''data'')], clock = 3600, faults = []\<rparr>,
      tasks = [\<lparr>t_job_id = ''j1'', t_input_path = ''uploads/j1_clip.mp4'', t_pc = Running []\<rparr>]\<rparr>"
  by code_simp

lemma state_after_completion:
  "exec accept_all (upload_and_ticks 7) (init_system 0 []) =
     \<lparr>world =
        \<lparr>videojob_coll = [(0, \<lparr>email = Some ''a@b.com'', filename = ''j1_clip.mp4'',
               size_bytes = 4, status = ''completed'', progress = 100,
               steps = default_steps,
               current_step = Some ''color_and_export'',
               render_url = Some ''/api/demo/render/j1.mp4'', error = None,
               job_id = ''j1'', updated_at = Some 3600\<rparr>)],
         waitlistuser_coll = [], next_oid = 1,
         files = [(''uploads/j1_clip.mp4'', ''data'')], clock = 3600, faults = []\<rparr>,
      tasks = [\<lparr>t_job_id = ''j1'', t_input_path = ''uploads/j1_clip.mp4'', t_pc = Returned\<rparr>]\<rparr>"
  by code_simp

lemma state_after_failed_completion:
  "exec accept_all (upload_and_ticks 8) (init_system 0 (replicate 14 None @ [Some ''boom''])) =
     \<lparr>world =
        \<lparr>videojob_coll = [(0, \<lparr>email = Some ''a@b.com'', filename = ''j1_clip.mp4'',
               size_bytes = 4, status = ''failed'', progress = 100,
               steps = default_steps,
               current_step = Some ''color_and_export'',
               render_url = None, error = Some ''boom'',
               job_id = ''j1'', updated_at = Some 3000\<rparr>)],
         waitlistuser_coll = [], next_oid = 1,
         files = [(''uploads/j1_clip.mp4'', ''data'')], clock = 3600, faults = []\<rparr>,
      tasks = [\<lparr>t_job_id = ''j1'', t_input_path = ''uploads/j1_clip.mp4'', t_pc = Returned\<rparr>]\<rparr>"
  by code_simp

subsection \<open>Invariants of the job records\<close>

text \<open>
  C5, as stated: progress is 100 if and only if the status is "completed". This fails in
  reachable states. After the sixth step of a fault-free run the record has progress 100
  and status "processing" (the table gives the last step, color_and_export, the target
  100), and it stays so until the completion update. And when the completion update
  meets a store failure, the failure update leaves progress 100 under status "failed".
\<close>

theorem progress_100_without_completed:
  "admissible accept_all (upload_and_ticks 6) (init_system 0 []) \<and>
   (\<exists>x \<in> set (videojob_coll (world (exec accept_all (upload_and_ticks 6) (init_system 0 [])))).
      progress (snd x) = 100 \<and> status (snd x) = ''processing'') \<and>
   admissible accept_all (upload_and_ticks 8) (init_system 0 (replicate 14 None @ [Some ''boom''])) \<and>
   (\<exists>x \<in> set (videojob_coll (world (exec accept_all (upload_and_ticks 8)
                  (init_system 0 (replicate 14 None @ [Some ''boom'']))))).
      progress (snd x) = 100 \<and> status (snd x) = ''failed'')"
  by (simp add: admissible_upload_and_ticks state_after_six_steps state_after_failed_completion)

text \<open>
  C5, amended. In every state reached by an admissible sequence of events, for every job
  record: status "completed" implies progress 100; status "queued" implies progress 0;
  and, whatever the status, progress is 100 exactly when the current step is
  color_and_export. So a record with status "processing" or "failed" has progress 100
  only from the last step on, and a record with status "queued" never has.
\<close>

theorem progress_when_completed:
  assumes "admissible V evs (init_system t0 fs)"
  shows "\<forall>x \<in> set (videojob_coll (world (exec V evs (init_system t0 fs)))).
           (status (snd x) = ''completed'' \<longrightarrow> progress (snd x) = 100) \<and>
           (status (snd x) = ''queued'' \<longrightarrow> progress (snd x) = 0) \<and>
           (progress (snd x) = 100) = (current_step (snd x) = Some ''color_and_export'')"
proof
  fix x assume x: "x \<in> set (videojob_coll (world (exec V evs (init_system t0 fs))))"
  note inv = sys_inv_exec[OF sys_inv_init assms]
  from sys_inv_record[OF inv x] show
    "(status (snd x) = ''completed'' \<longrightarrow> progress (snd x) = 100) \<and>
     (status (snd x) = ''queued'' \<longrightarrow> progress (snd x) = 0) \<and>
     (progress (snd x) = 100) = (current_step (snd x) = Some ''color_and_export'')"
    by (rule record_progress)
qed

theorem progress_when_completed_witness:
  "admissible accept_all (upload_and_ticks 7) (init_system 0 []) \<and>
   hd (videojob_coll (world (exec accept_all (upload_and_ticks 7) (init_system 0 []))))
     \<in> set (videojob_coll (world (exec accept_all (upload_and_ticks 7) (init_system 0 [])))) \<and>
   status (snd (hd (videojob_coll (world (exec accept_all (upload_and_ticks 7) (init_system 0 []))))))
     = ''completed'' \<and>
   progress (snd (hd (videojob_coll (world (exec accept_all (upload_and_ticks 7) (init_system 0 []))))))
     = 100 \<and>
   admissible accept_all (upload_and_ticks 8) (init_system 0 (replicate 14 None @ [Some ''boom''])) \<and>
   hd (videojob_coll (world (exec accept_all (upload_and_ticks 8)
         (init_system 0 (replicate 14 None @ [Some ''boom''])))))
     \<in> set (videojob_coll (world (exec accept_all (upload_and_ticks 8)
         (init_system 0 (replicate 14 None @ [Some ''boom'']))))) \<and>
   status (snd (hd (videojob_coll (world (exec accept_all (upload_and_ticks 8)
         (init_system 0 (replicate 14 None @ [Some ''boom''])))))))
     = ''failed'' \<and>
   progress (snd (hd (videojob_coll (world (exec accept_all (upload_and_ticks 8)
         (init_system 0 (replicate 14 None @ [Some ''boom''])))))))
     = 100 \<and>
   current_step (snd (hd (videojob_coll (world (exec accept_all (upload_and_ticks 8)
         (init_system 0 (replicate 14 None @ [Some ''boom''])))))))
     = Some ''color_and_export''"
proof -
  let ?x = "hd (videojob_coll (world (exec accept_all (upload_and_ticks 7) (init_system 0 []))))"
  let ?y = "hd (videojob_coll (world (exec accept_all (upload_and_ticks 8)
                 (init_system 0 (replicate 14 None @ [Some ''boom''])))))"
  have adm: "admissible accept_all (upload_and_ticks 7) (init_system 0 [])"
    by (rule admissible_upload_and_ticks)
  have mem: "?x \<in> set (videojob_coll (world (exec accept_all (upload_and_ticks 7) (init_system 0 []))))"
    by (simp add: state_after_completion)
  have st: "status (snd ?x) = ''completed''" by (simp add: state_after_completion)
  note T = progress_when_completed[OF adm, rule_format, OF mem, THEN conjunct1, rule_format, OF st]
  have adm': "admissible accept_all (upload_and_ticks 8)
                (init_system 0 (replicate 14 None @ [Some ''boom'']))"
    by (rule admissible_upload_and_ticks)
  have mem': "?y \<in> set (videojob_coll (world (exec accept_all (upload_and_ticks 8)
                 (init_system 0 (replicate 14 None @ [Some ''boom''])))))"
    by (simp add: state_after_failed_completion)
  have st': "status (snd ?y) = ''failed''" by (simp add: state_after_failed_completion)
  have p': "progress (snd ?y) = 100" by (simp add: state_after_failed_completion)
  note U = progress_when_completed[OF adm', rule_format, OF mem', THEN conjunct2, THEN conjunct2,
             THEN iffD1, OF p']
  show ?thesis by (intro conjI adm mem st T adm' mem' st' p' U)
qed

text \<open>
  C6. In every state reached by an admissible sequence of events, for every job record:
  when the status is "completed" or "failed", exactly one of \<open>render_url\<close> and \<open>error\<close> is
  set; while it is "queued" or "processing", neither is set; and the status is one of
  these four.
\<close>

theorem render_url_xor_error:
  assumes "admissible V evs (init_system t0 fs)"
  shows "\<forall>x \<in> set (videojob_coll (world (exec V evs (init_system t0 fs)))).
           (status (snd x) = ''completed'' \<or> status (snd x) = ''failed'' \<longrightarrow>
              (render_url (snd x) \<noteq> None) \<noteq> (error (snd x) \<noteq> None)) \<and>
           (status (snd x) = ''queued'' \<or> status (snd x) = ''processing'' \<longrightarrow>
              render_url (snd x) = None \<and> error (snd x) = None) \<and>
           (status (snd x) = ''queued'' \<or> status (snd x) = ''processing'' \<or>
            status (snd x) = ''completed'' \<or> status (snd x) = ''failed'')"
proof
  fix x assume x: "x \<in> set (videojob_coll (world (exec V evs (init_system t0 fs))))"
  note inv = sys_inv_exec[OF sys_inv_init assms]
  from sys_inv_record[OF inv x] show
    "(status (snd x) = ''completed'' \<or> status (snd x) = ''failed'' \<longrightarrow>
        (render_url (snd x) \<noteq> None) \<noteq> (error (snd x) \<noteq> None)) \<and>
     (status (snd x) = ''queued'' \<or> status (snd x) = ''processing'' \<longrightarrow>
        render_url (snd x) = None \<and> error (snd x) = None) \<and>
     (status (snd x) = ''queued'' \<or> status (snd x) = ''processing'' \<or>
      status (snd x) = ''completed'' \<or> status (snd x) = ''failed'')"
    by (rule record_render_error)
qed

theorem render_url_xor_error_witness:
  "admissible accept_all (upload_and_ticks 7) (init_system 0 []) \<and>
   hd (videojob_coll (world (exec accept_all (upload_and_ticks 7) (init_system 0 []))))
     \<in> set (videojob_coll (world (exec accept_all (upload_and_ticks 7) (init_system 0 [])))) \<and>
   status (snd (hd (videojob_coll (world (exec accept_all (upload_and_ticks 7) (init_system 0 []))))))
     = ''completed'' \<and>
   (render_url (snd (hd (videojob_coll (world (exec accept_all (upload_and_ticks 7)
       (init_system 0 [])))))) \<noteq> None) \<noteq>
   (error (snd (hd (videojob_coll (world (exec accept_all (upload_and_ticks 7)
       (init_system 0 [])))))) \<noteq> None)"
proof -
  let ?x = "hd (videojob_coll (world (exec accept_all (upload_and_ticks 7) (init_system 0 []))))"
  have adm: "admissible accept_all (upload_and_ticks 7) (init_system 0 [])"
    by (rule admissible_upload_and_ticks)
  have mem: "?x \<in> set (videojob_coll (world (exec accept_all (upload_and_ticks 7) (init_system 0 []))))"
    by (simp add: state_after_completion)
  have st: "status (snd ?x) = ''completed''" by (simp add: state_after_completion)
  note T = render_url_xor_error[OF adm, rule_format, OF mem, THEN conjunct1, rule_format,
             OF disjI1[OF st]]
  show ?thesis by (intro conjI adm mem st T)
qed

text \<open>
  C8. Once a record has status "completed" or "failed" in a reachable state, every state
  reached from there by further admissible events (task steps of any task, uploads,
  lookups, waitlist signups, static endpoints) holds the very same record at the same
  position of the collection: no field of it changes.
\<close>

theorem terminal_records_never_change:
  assumes "admissible V evs (init_system t0 fs)"
    and "admissible V evs' (exec V evs (init_system t0 fs))"
  shows "\<forall>k < length (videojob_coll (world (exec V evs (init_system t0 fs)))).
           status (snd (videojob_coll (world (exec V evs (init_system t0 fs))) ! k)) = ''completed'' \<or>
           status (snd (videojob_coll (world (exec V evs (init_system t0 fs))) ! k)) = ''failed'' \<longrightarrow>
           k < length (videojob_coll (world (exec V evs' (exec V evs (init_system t0 fs))))) \<and>
           videojob_coll (world (exec V evs' (exec V evs (init_system t0 fs)))) ! k =
             videojob_coll (world (exec V evs (init_system t0 fs))) ! k"
proof (intro allI impI)
  fix k
  let ?s = "exec V evs (init_system t0 fs)"
  assume k: "k < length (videojob_coll (world ?s))"
    and t: "status (snd (videojob_coll (world ?s) ! k)) = ''completed'' \<or>
            status (snd (videojob_coll (world ?s) ! k)) = ''failed''"
  note inv = sys_inv_exec[OF sys_inv_init assms(1)]
  from t have "terminal (snd (videojob_coll (world ?s) ! k))" by (simp add: terminal_def)
  from exec_keeps_terminal[OF inv assms(2) k this]
  show "k < length (videojob_coll (world (exec V evs' ?s))) \<and>
        videojob_coll (world (exec V evs' ?s)) ! k = videojob_coll (world ?s) ! k" .
qed

theorem terminal_records_witness:
  "admissible accept_all (upload_and_ticks 7) (init_system 0 []) \<and>
   admissible accept_all [Tick 0, GetJob ''j1'', Upload ''j2'' None ''xyz'' None, Tick 1, Tick 0]
     (exec accept_all (upload_and_ticks 7) (init_system 0 [])) \<and>
   0 < length (videojob_coll (world (exec accept_all (upload_and_ticks 7) (init_system 0 [])))) \<and>
   status (snd (videojob_coll (world (exec accept_all (upload_and_ticks 7) (init_system 0 []))) ! 0))
     = ''completed'' \<and>
   0 < length (videojob_coll (world (exec accept_all
         [Tick 0, GetJob ''j1'', Upload ''j2'' None ''xyz'' None, Tick 1, Tick 0]
         (exec accept_all (upload_and_ticks 7) (init_system 0 []))))) \<and>
   videojob_coll (world (exec accept_all
         [Tick 0, GetJob ''j1'', Upload ''j2'' None ''xyz'' None, Tick 1, Tick 0]
         (exec accept_all (upload_and_ticks 7) (init_system 0 [])))) ! 0 =
     videojob_coll (world (exec accept_all (upload_and_ticks 7) (init_system 0 []))) ! 0"
proof -
  let ?s = "exec accept_all (upload_and_ticks 7) (init_system 0 [])"
  let ?evs' = "[Tick 0, GetJob ''j1'', Upload ''j2'' None ''xyz'' None, Tick 1, Tick 0]"
  have adm: "admissible accept_all (upload_and_ticks 7) (init_system 0 [])"
    by (rule admissible_upload_and_ticks)
  have adm': "admissible accept_all ?evs' ?s"
    unfolding state_after_completion by code_simp
  have k: "0 < length (videojob_coll (world ?s))" by (simp add: state_after_completion)
  have st: "status (snd (videojob_coll (world ?s) ! 0)) = ''completed''"
    by (simp add: state_after_completion)
  note T = terminal_records_never_change[OF adm adm', rule_format, OF k disjI1[OF st]]
  show ?thesis by (intro conjI adm adm' k st T[THEN conjunct1] T[THEN conjunct2])
qed

end
